theory Spec2Isabelle
  imports
    Main
    "HOL-Library.AList"
    "HOL-Library.Char_ord"
    "HOL-Library.List_Lexorder"
    "HOL-Library.Multiset"
begin

section \<open>JavaScript values\<close>

text \<open>
  The log reconstruction engine (\<^verbatim>\<open>lib/codex.ts\<close>) folds decoded JSON lines into a session
  summary, a tool-call ledger, a transcript and a token timeline. The code probes untyped
  JSON, so the model keeps JSON values as they are.

  Strings are lists of UTF-16 code units; the development covers the code units below 256,
  one \<^typ>\<open>char\<close> each. JSON numbers are modelled as integers (exact below \<open>2^53\<close>); the result
  of an arithmetic expression is a \<open>jsnum\<close>, where \<open>NaN\<close> is JavaScript's not-a-number.
  \<open>undefined\<close> is \<open>None\<close> of an option type.
\<close>

datatype json =
    JNull
  | JBool bool
  | JNum int
  | JStr string
  | JArr "json list"
  | JObj "(string \<times> json) list"

datatype jsnum = Num int | NaN

text \<open>Property access \<^verbatim>\<open>v.k\<close> on a value that is neither \<^verbatim>\<open>null\<close> nor \<^verbatim>\<open>undefined\<close>; none of
  the keys the code reads exists on a primitive or on an array.\<close>

fun getProp :: "json \<Rightarrow> string \<Rightarrow> json option" where
  "getProp (JObj kvs) k = map_of kvs k"
| "getProp _ k = None"

text \<open>Truthiness, as tested by \<^verbatim>\<open>if (v)\<close>, \<^verbatim>\<open>!v\<close>, \<^verbatim>\<open>a && b\<close>, \<^verbatim>\<open>a || b\<close>.\<close>

fun truthy :: "json option \<Rightarrow> bool" where
  "truthy None = False"
| "truthy (Some JNull) = False"
| "truthy (Some (JBool b)) = b"
| "truthy (Some (JNum n)) = (n \<noteq> 0)"
| "truthy (Some (JStr s)) = (s \<noteq> [])"
| "truthy (Some (JArr xs)) = True"
| "truthy (Some (JObj kvs)) = True"

text \<open>\<^verbatim>\<open>a ?? b\<close>: the default replaces \<^verbatim>\<open>null\<close> and \<^verbatim>\<open>undefined\<close> only.\<close>

fun orElse :: "json option \<Rightarrow> json \<Rightarrow> json" where
  "orElse None d = d"
| "orElse (Some JNull) d = d"
| "orElse (Some v) d = v"

text \<open>\<^verbatim>\<open>typeof v === "string" ? v : undefined\<close>.\<close>

fun stringOf :: "json option \<Rightarrow> string option" where
  "stringOf (Some (JStr s)) = Some s"
| "stringOf _ = None"

text \<open>\<^verbatim>\<open>toRecord\<close>: an object that is not an array, else \<^verbatim>\<open>undefined\<close>.\<close>

fun toRecord :: "json option \<Rightarrow> json option" where
  "toRecord (Some (JObj kvs)) = Some (JObj kvs)"
| "toRecord _ = None"

text \<open>Decimal notation of a number, as \<^verbatim>\<open>String(n)\<close> gives it below \<open>10^21\<close>.\<close>

fun showNat :: "nat \<Rightarrow> string" where
  "showNat n =
     (if n < 10 then [char_of (48 + n)]
      else showNat (n div 10) @ [char_of (48 + n mod 10)])"

definition showInt :: "int \<Rightarrow> string" where
  "showInt i = (if i < 0 then CHR ''-'' # showNat (nat (- i)) else showNat (nat i))"

fun joinWith :: "string \<Rightarrow> string list \<Rightarrow> string" where
  "joinWith sep [] = []"
| "joinWith sep [x] = x"
| "joinWith sep (x # y # ys) = x @ sep @ joinWith sep (y # ys)"

text \<open>\<^verbatim>\<open>String(v)\<close>, which a template literal applies: an array joins its elements with a comma,
  \<^verbatim>\<open>null\<close> elements as the empty string.\<close>

fun toStr :: "json \<Rightarrow> string" where
  "toStr JNull = ''null''"
| "toStr (JBool b) = (if b then ''true'' else ''false'')"
| "toStr (JNum n) = showInt n"
| "toStr (JStr s) = s"
| "toStr (JArr xs) = joinWith '','' (map (\<lambda>x. if x = JNull then [] else toStr x) xs)"
| "toStr (JObj kvs) = ''[object Object]''"


subsection \<open>The runtime's library functions\<close>

text \<open>
  The code calls library functions of the JavaScript runtime that are no part of the
  repository: \<^verbatim>\<open>JSON.parse\<close> (\<open>None\<close> when it throws), \<^verbatim>\<open>new Date(s).getTime()\<close>
  (\<open>NaN\<close> for an invalid date), the conversion of a string to a number that arithmetic on a
  string operand performs, \<^verbatim>\<open>path.basename\<close> (with its optional suffix, \<open>[]\<close> for none) and
  \<^verbatim>\<open>path.relative\<close>. They are parameters of the model; every theorem holds for every runtime.
\<close>

record runtime =
  jsonParse :: "string \<Rightarrow> json option"
  dateMs :: "string \<Rightarrow> jsnum"
  stringToNumber :: "string \<Rightarrow> jsnum"
  pathBasename :: "string \<Rightarrow> string \<Rightarrow> string"
  pathRelative :: "string \<Rightarrow> string \<Rightarrow> string"

text \<open>\<^verbatim>\<open>ToNumber\<close>, applied to the operands of \<^verbatim>\<open>-\<close>.\<close>

fun toNumber :: "runtime \<Rightarrow> json option \<Rightarrow> jsnum" where
  "toNumber rt None = NaN"
| "toNumber rt (Some JNull) = Num 0"
| "toNumber rt (Some (JBool b)) = Num (if b then 1 else 0)"
| "toNumber rt (Some (JNum n)) = Num n"
| "toNumber rt (Some (JStr s)) = stringToNumber rt s"
| "toNumber rt (Some v) = stringToNumber rt (toStr v)"

fun numSub :: "jsnum \<Rightarrow> jsnum \<Rightarrow> jsnum" where
  "numSub (Num a) (Num b) = Num (a - b)"
| "numSub _ _ = NaN"

text \<open>\<^verbatim>\<open>Math.max(0, x)\<close>.\<close>

fun max0 :: "jsnum \<Rightarrow> jsnum" where
  "max0 (Num a) = Num (max 0 a)"
| "max0 NaN = NaN"

text \<open>\<^verbatim>\<open>a <= b\<close> on numbers: false as soon as one side is \<^verbatim>\<open>NaN\<close>.\<close>

fun numLe :: "jsnum \<Rightarrow> jsnum \<Rightarrow> bool" where
  "numLe (Num a) (Num b) = (a \<le> b)"
| "numLe _ _ = False"

text \<open>\<^verbatim>\<open>new Date(0).toISOString()\<close>.\<close>

definition epochIso :: string where
  "epochIso = ''1970-01-01T00:00:00.000Z''"

subsection \<open>Array.prototype.sort\<close>

text \<open>
  \<^verbatim>\<open>xs.sort(cmp)\<close> is the runtime's. ECMAScript requires a stable sort and reads a comparator
  result \<^verbatim>\<open>NaN\<close> as \<open>0\<close>; for a comparator that is not a consistent order the resulting order
  is implementation-defined. The model is the stable insertion sort: an element moves behind
  a later one exactly when the comparator says it is greater.
\<close>

fun cmpResult :: "jsnum \<Rightarrow> int" where
  "cmpResult (Num d) = d"
| "cmpResult NaN = 0"

fun insertBy :: "('a \<Rightarrow> 'a \<Rightarrow> int) \<Rightarrow> 'a \<Rightarrow> 'a list \<Rightarrow> 'a list" where
  "insertBy cmp x [] = [x]"
| "insertBy cmp x (y # ys) = (if cmp x y > 0 then y # insertBy cmp x ys else x # y # ys)"

definition sortBy :: "('a \<Rightarrow> 'a \<Rightarrow> int) \<Rightarrow> 'a list \<Rightarrow> 'a list" where
  "sortBy cmp xs = foldr (insertBy cmp) xs []"

section \<open>String helpers\<close>

text \<open>White space and line terminators, as \<^verbatim>\<open>trim\<close> and the regular expression class
  \<^verbatim>\<open>\s\<close> know them: tab, line feed, vertical tab, form feed, carriage return, space and
  no-break space.\<close>

definition isSpace :: "char \<Rightarrow> bool" where
  "isSpace c = ((of_char c :: nat) \<in> {9, 10, 11, 12, 13, 32, 160})"

definition trim :: "string \<Rightarrow> string" where
  "trim s = rev (dropWhile isSpace (rev (dropWhile isSpace s)))"

definition startsWith :: "string \<Rightarrow> string \<Rightarrow> bool" where
  "startsWith s p = (take (length p) s = p)"

definition lineFilter :: "string \<Rightarrow> string" where
  "lineFilter line =
     (if line \<noteq> [] \<and> \<not> startsWith line ''Total output lines'' then line else [])"

definition newline :: char where
  "newline = CHR 0x0A"

text \<open>\<^verbatim>\<open>raw.split("\n")\<close>: the empty text has one (empty) line.\<close>

fun splitLines :: "string \<Rightarrow> string list" where
  "splitLines [] = [[]]"
| "splitLines (c # cs) =
     (if c = newline then [] # splitLines cs
      else (case splitLines cs of [] \<Rightarrow> [[c]] | l # ls \<Rightarrow> (c # l) # ls))"

text \<open>\<^verbatim>\<open>toLowerCase\<close> on code units below 256.\<close>

definition toLowerChar :: "char \<Rightarrow> char" where
  "toLowerChar c =
     (let n = (of_char c :: nat)
      in if (65 \<le> n \<and> n \<le> 90) \<or> (192 \<le> n \<and> n \<le> 222 \<and> n \<noteq> 215)
         then char_of (n + 32) else c)"

definition isSlugChar :: "char \<Rightarrow> bool" where
  "isSlugChar c =
     (let n = (of_char c :: nat) in (97 \<le> n \<and> n \<le> 122) \<or> (48 \<le> n \<and> n \<le> 57))"

text \<open>\<^verbatim>\<open>replace(/[^a-z0-9]+/g, "-")\<close>: every maximal run of other characters becomes one dash.\<close>

function dashRuns :: "string \<Rightarrow> string" where
  "dashRuns [] = []"
| "dashRuns (c # cs) =
     (if isSlugChar c then c # dashRuns cs
      else CHR ''-'' # dashRuns (dropWhile (\<lambda>d. \<not> isSlugChar d) cs))"
  by pat_completeness auto
termination
  by (relation "measure length") (auto simp: length_dropWhile_le less_Suc_eq_le)

text \<open>\<^verbatim>\<open>replace(/(^-|-$)/g, "")\<close>: one dash from the front, then one from the end.\<close>

definition stripDashes :: "string \<Rightarrow> string" where
  "stripDashes s =
     (let t = (case s of [] \<Rightarrow> [] | c # cs \<Rightarrow> if c = CHR ''-'' then cs else s)
      in if t \<noteq> [] \<and> last t = CHR ''-'' then butlast t else t)"

definition slugify :: "string \<Rightarrow> string" where
  "slugify v = stripDashes (dashRuns (map toLowerChar v))"

text \<open>\<^verbatim>\<open>extractText\<close>: the \<^verbatim>\<open>text\<close> of every chunk that is an object with a string \<^verbatim>\<open>text\<close>,
  empty strings dropped, joined by line feeds, trimmed.\<close>

fun chunkText :: "json \<Rightarrow> string" where
  "chunkText (JObj kvs) = (case map_of kvs ''text'' of Some (JStr s) \<Rightarrow> s | _ \<Rightarrow> [])"
| "chunkText _ = []"

fun extractText :: "json option \<Rightarrow> string" where
  "extractText (Some (JArr content)) =
     trim (joinWith [newline] (filter (\<lambda>s. s \<noteq> []) (map chunkText content)))"
| "extractText _ = []"

text \<open>\<^verbatim>\<open>replace(/\s+/g, " ")\<close>.\<close>

function collapseSpaces :: "string \<Rightarrow> string" where
  "collapseSpaces [] = []"
| "collapseSpaces (c # cs) =
     (if isSpace c then CHR '' '' # collapseSpaces (dropWhile isSpace cs)
      else c # collapseSpaces cs)"
  by pat_completeness auto
termination
  by (relation "measure length") (auto simp: length_dropWhile_le less_Suc_eq_le)

definition composePreview :: "string \<Rightarrow> string" where
  "composePreview text =
     (if text = [] then ''(no prompt logged)''
      else let cleaned = trim (collapseSpaces text)
           in if length cleaned > 180 then take 177 cleaned @ ''...'' else cleaned)"

section \<open>The event reader\<close>

text \<open>
  \<^verbatim>\<open>readJsonl\<close> after the file is read: each line is trimmed and filtered, parsed, and pushed
  when the parse gives an object. A parse that throws is caught and the line skipped.
\<close>

fun isObject :: "json \<Rightarrow> bool" where
  "isObject (JObj kvs) = True"
| "isObject _ = False"

fun readLoop :: "runtime \<Rightarrow> string list \<Rightarrow> json list \<Rightarrow> json list" where
  "readLoop rt [] events = events"
| "readLoop rt (line # rest) events =
     (let cleaned = lineFilter (trim line)
      in if cleaned = [] then readLoop rt rest events
         else (case jsonParse rt cleaned of
                 None \<Rightarrow> readLoop rt rest events
               | Some parsed \<Rightarrow>
                   if isObject parsed then readLoop rt rest (events @ [parsed])
                   else readLoop rt rest events))"

definition readJsonl :: "runtime \<Rightarrow> string \<Rightarrow> json list" where
  "readJsonl rt raw = readLoop rt (splitLines raw) []"

section \<open>The tool-call reconciler\<close>

datatype ToolKind = Function | Custom

text \<open>The record \<^verbatim>\<open>ToolCall\<close>; field names carry the prefix \<open>tc\<close>, since the interfaces of the
  source share field names. \<^verbatim>\<open>name\<close> and \<^verbatim>\<open>status\<close> come from the payload unchecked, so they
  are JSON values.\<close>

record ToolCall =
  tcId :: string
  tcName :: json
  tcToolKind :: ToolKind
  tcStatus :: json
  tcInput :: "string option"
  tcOutput :: "json option"
  tcMetadata :: "json option"
  tcStartedAt :: "string option"
  tcCompletedAt :: "string option"
  tcDurationMs :: "jsnum option"

text \<open>The \<^verbatim>\<open>Map\<close> of calls, in insertion order: \<^verbatim>\<open>calls.get\<close> is \<^const>\<open>map_of\<close>, \<^verbatim>\<open>calls.set\<close> is
  \<^const>\<open>AList.update\<close> (an existing key keeps its place, a new key goes last).\<close>

type_synonym calls = "(string \<times> ToolCall) list"

text \<open>\<^verbatim>\<open>v?.k\<close>.\<close>

fun optProp :: "json option \<Rightarrow> string \<Rightarrow> json option" where
  "optProp None k = None"
| "optProp (Some JNull) k = None"
| "optProp (Some v) k = getProp v k"

definition onFunctionCall :: "json \<Rightarrow> string option \<Rightarrow> calls \<Rightarrow> calls" where
  "onFunctionCall payload timestamp calls =
     (if getProp payload ''type'' = Some (JStr ''function_call'') then
        (case stringOf (getProp payload ''call_id'') of
           None \<Rightarrow> calls
         | Some cid \<Rightarrow>
             let existing =
                   (case map_of calls cid of
                      Some c \<Rightarrow> c
                    | None \<Rightarrow>
                        \<lparr>tcId = cid,
                         tcName = orElse (getProp payload ''name'') (JStr ''function_call''),
                         tcToolKind = Function,
                         tcStatus = orElse (getProp payload ''status'') (JStr ''in_progress''),
                         tcInput = None, tcOutput = None, tcMetadata = None,
                         tcStartedAt = None, tcCompletedAt = None, tcDurationMs = None\<rparr>);
                 e1 = existing\<lparr>tcName := orElse (getProp payload ''name'') (tcName existing)\<rparr>;
                 e2 = (case stringOf (getProp payload ''arguments'') of
                         Some a \<Rightarrow> e1\<lparr>tcInput := Some a\<rparr>
                       | None \<Rightarrow> e1);
                 e3 = e2\<lparr>tcStartedAt :=
                         (case tcStartedAt e2 of None \<Rightarrow> timestamp | Some t \<Rightarrow> Some t)\<rparr>;
                 e4 = e3\<lparr>tcStatus := orElse (getProp payload ''status'') (tcStatus e3)\<rparr>
             in AList.update cid e4 calls)
      else calls)"

definition onFunctionOutput :: "json \<Rightarrow> string option \<Rightarrow> calls \<Rightarrow> calls" where
  "onFunctionOutput payload timestamp calls =
     (if getProp payload ''type'' = Some (JStr ''function_call_output'') then
        (case stringOf (getProp payload ''call_id'') of
           None \<Rightarrow> calls
         | Some cid \<Rightarrow>
             (case map_of calls cid of
                None \<Rightarrow> calls
              | Some existing \<Rightarrow>
                  let e1 = (case stringOf (getProp payload ''output'') of
                              Some out \<Rightarrow> existing\<lparr>tcOutput := Some (JStr out)\<rparr>
                            | None \<Rightarrow> existing);
                      e2 = e1\<lparr>tcCompletedAt :=
                              (case timestamp of Some t \<Rightarrow> Some t | None \<Rightarrow> tcCompletedAt e1)\<rparr>;
                      e3 = e2\<lparr>tcStatus := JStr ''completed''\<rparr>
                  in AList.update cid e3 calls))
      else calls)"

definition onCustomCall :: "json \<Rightarrow> string option \<Rightarrow> calls \<Rightarrow> calls" where
  "onCustomCall payload timestamp calls =
     (if getProp payload ''type'' = Some (JStr ''custom_tool_call'') then
        (case stringOf (getProp payload ''call_id'') of
           None \<Rightarrow> calls
         | Some cid \<Rightarrow>
             let existing =
                   (case map_of calls cid of
                      Some c \<Rightarrow> c
                    | None \<Rightarrow>
                        \<lparr>tcId = cid,
                         tcName = orElse (getProp payload ''name'') (JStr ''custom_tool''),
                         tcToolKind = Custom,
                         tcStatus = orElse (getProp payload ''status'') (JStr ''in_progress''),
                         tcInput = None, tcOutput = None, tcMetadata = None,
                         tcStartedAt = None, tcCompletedAt = None, tcDurationMs = None\<rparr>);
                 e1 = (case stringOf (getProp payload ''input'') of
                         Some a \<Rightarrow> existing\<lparr>tcInput := Some a\<rparr>
                       | None \<Rightarrow> existing);
                 e2 = e1\<lparr>tcStartedAt :=
                         (case tcStartedAt e1 of None \<Rightarrow> timestamp | Some t \<Rightarrow> Some t)\<rparr>;
                 e3 = e2\<lparr>tcStatus := orElse (getProp payload ''status'') (tcStatus e2)\<rparr>
             in AList.update cid e3 calls)
      else calls)"

text \<open>\<^verbatim>\<open>safeParse\<close>: \<^verbatim>\<open>JSON.parse\<close>, \<^verbatim>\<open>undefined\<close> when it throws.\<close>

definition safeParse :: "runtime \<Rightarrow> string \<Rightarrow> json option" where
  "safeParse rt maybe = jsonParse rt maybe"

definition onCustomOutput :: "runtime \<Rightarrow> json \<Rightarrow> string option \<Rightarrow> calls \<Rightarrow> calls" where
  "onCustomOutput rt payload timestamp calls =
     (if getProp payload ''type'' = Some (JStr ''custom_tool_call_output'') then
        (case stringOf (getProp payload ''call_id'') of
           None \<Rightarrow> calls
         | Some cid \<Rightarrow>
             (case map_of calls cid of
                None \<Rightarrow> calls
              | Some existing \<Rightarrow>
                  let parsed = (case stringOf (getProp payload ''output'') of
                                  Some out \<Rightarrow> safeParse rt out
                                | None \<Rightarrow> getProp payload ''output'');
                      e1 = (if truthy (optProp parsed ''output'')
                            then existing\<lparr>tcOutput := optProp parsed ''output''\<rparr>
                            else (case stringOf (getProp payload ''output'') of
                                    Some out \<Rightarrow> existing\<lparr>tcOutput := Some (JStr out)\<rparr>
                                  | None \<Rightarrow> existing));
                      e2 = e1\<lparr>tcMetadata :=
                              (case optProp parsed ''metadata'' of
                                 None \<Rightarrow> tcMetadata e1
                               | Some JNull \<Rightarrow> tcMetadata e1
                               | Some m \<Rightarrow> Some m)\<rparr>;
                      e3 = e2\<lparr>tcCompletedAt :=
                              (case timestamp of Some t \<Rightarrow> Some t | None \<Rightarrow> tcCompletedAt e2)\<rparr>;
                      e4 = e3\<lparr>tcStatus := JStr ''completed''\<rparr>
                  in AList.update cid e4 calls))
      else calls)"

text \<open>One turn of the loop of \<^verbatim>\<open>buildToolCalls\<close>: the four \<^verbatim>\<open>if\<close> statements run in order.\<close>

definition toolStep :: "runtime \<Rightarrow> calls \<Rightarrow> json \<Rightarrow> calls" where
  "toolStep rt calls event =
     (if getProp event ''type'' \<noteq> Some (JStr ''response_item'') then calls
      else (case toRecord (getProp event ''payload'') of
              None \<Rightarrow> calls
            | Some payload \<Rightarrow>
                let timestamp = stringOf (getProp event ''timestamp'')
                in onCustomOutput rt payload timestamp
                     (onCustomCall payload timestamp
                       (onFunctionOutput payload timestamp
                         (onFunctionCall payload timestamp calls)))))"

definition reconcile :: "runtime \<Rightarrow> json list \<Rightarrow> calls" where
  "reconcile rt events = foldl (toolStep rt) [] events"

text \<open>The post-pass: \<^verbatim>\<open>durationMs\<close> when both time stamps are non-empty strings.\<close>

definition finalize :: "runtime \<Rightarrow> ToolCall \<Rightarrow> ToolCall" where
  "finalize rt call =
     (case (tcStartedAt call, tcCompletedAt call) of
        (Some s, Some c) \<Rightarrow>
          if s \<noteq> [] \<and> c \<noteq> []
          then call\<lparr>tcDurationMs := Some (numSub (dateMs rt c) (dateMs rt s))\<rparr>
          else call
      | _ \<Rightarrow> call)"

text \<open>The comparator \<^verbatim>\<open>a.startedAt && b.startedAt ? (a.startedAt > b.startedAt ? 1 : -1) : 0\<close>;
  strings compare by code unit, lexicographically.\<close>

definition compareCalls :: "ToolCall \<Rightarrow> ToolCall \<Rightarrow> int" where
  "compareCalls a b =
     (case (tcStartedAt a, tcStartedAt b) of
        (Some x, Some y) \<Rightarrow> if x \<noteq> [] \<and> y \<noteq> [] then (if x > y then 1 else - 1) else 0
      | _ \<Rightarrow> 0)"

definition finalized :: "runtime \<Rightarrow> json list \<Rightarrow> ToolCall list" where
  "finalized rt events = map (finalize rt) (map snd (reconcile rt events))"

definition buildToolCalls :: "runtime \<Rightarrow> json list \<Rightarrow> ToolCall list \<times> nat" where
  "buildToolCalls rt events =
     (sortBy compareCalls (finalized rt events), length (finalized rt events))"

section \<open>The token timeline builder\<close>

record TokenTimelinePoint =
  ptTimestamp :: string
  ptTimestampMs :: jsnum
  ptTotalTokens :: "json option"
  ptInputTokens :: "json option"
  ptCachedTokens :: "json option"
  ptUserTokens :: jsnum
  ptOutputTokens :: "json option"
  ptReasoningTokens :: "json option"
  ptContextWindow :: "json option"

definition timelineStep :: "runtime \<Rightarrow> TokenTimelinePoint list \<Rightarrow> json \<Rightarrow> TokenTimelinePoint list" where
  "timelineStep rt points event =
     (if getProp event ''type'' \<noteq> Some (JStr ''event_msg'') then points
      else (case toRecord (getProp event ''payload'') of
              None \<Rightarrow> points
            | Some payload \<Rightarrow>
                if getProp payload ''type'' = Some (JStr ''token_count'')
                   \<and> truthy (getProp payload ''info'')
                   \<and> truthy (optProp (getProp payload ''info'') ''total_token_usage'')
                then
                  (case optProp (getProp payload ''info'') ''total_token_usage'' of
                     None \<Rightarrow> points
                   | Some total' \<Rightarrow>
                       let timestamp = (case stringOf (getProp event ''timestamp'') of
                                          Some t \<Rightarrow> t | None \<Rightarrow> epochIso)
                       in points @
                          [\<lparr>ptTimestamp = timestamp,
                            ptTimestampMs = dateMs rt timestamp,
                            ptTotalTokens = getProp total' ''total_tokens'',
                            ptInputTokens = getProp total' ''input_tokens'',
                            ptCachedTokens = getProp total' ''cached_input_tokens'',
                            ptUserTokens =
                              max0 (numSub (toNumber rt (getProp total' ''input_tokens''))
                                           (toNumber rt (getProp total' ''cached_input_tokens''))),
                            ptOutputTokens = getProp total' ''output_tokens'',
                            ptReasoningTokens = getProp total' ''reasoning_output_tokens'',
                            ptContextWindow =
                              optProp (getProp payload ''info'') ''model_context_window''\<rparr>])
                else points))"

text \<open>The comparator \<^verbatim>\<open>a.timestampMs - b.timestampMs\<close>.\<close>

definition comparePoints :: "TokenTimelinePoint \<Rightarrow> TokenTimelinePoint \<Rightarrow> int" where
  "comparePoints a b = cmpResult (numSub (ptTimestampMs a) (ptTimestampMs b))"

definition timelinePoints :: "runtime \<Rightarrow> json list \<Rightarrow> TokenTimelinePoint list" where
  "timelinePoints rt events = foldl (timelineStep rt) [] events"

definition buildTokenTimeline :: "runtime \<Rightarrow> json list \<Rightarrow> TokenTimelinePoint list" where
  "buildTokenTimeline rt events = sortBy comparePoints (timelinePoints rt events)"

section \<open>The session summary builder\<close>

text \<open>\<^verbatim>\<open>startedAt\<close> and \<^verbatim>\<open>lastActivityAt\<close> can take the value of the meta payload's
  \<^verbatim>\<open>timestamp\<close>, which the code does not check, so they are JSON values; so are the token
  fields, read from the payload as they are.\<close>

record SessionSummary =
  sumId :: string
  sumProjectId :: string
  sumProjectName :: string
  sumProjectPath :: string
  sumRelativePath :: string
  sumStartedAt :: json
  sumLastActivityAt :: json
  sumPreview :: string
  sumTotalTokens :: json
  sumCachedTokens :: json
  sumUserTokens :: jsnum
  sumOutputTokens :: json
  sumReasoningTokens :: json
  sumContextWindow :: "json option"
  sumToolCallCount :: nat



definition isDigit :: "char \<Rightarrow> bool" where
  "isDigit c = (let n = (of_char c :: nat) in 48 \<le> n \<and> n \<le> 57)"







text \<open>The variables of the loop of \<^verbatim>\<open>parseSessionSummary\<close>. \<^verbatim>\<open>tokens\<close> starts as \<^verbatim>\<open>null\<close>;
  the \<^verbatim>\<open>Set\<close> of call ids is a list without duplicates.\<close>

record SummaryAcc =
  accMeta :: "json option"
  accPreview :: string
  accStartedAt :: json
  accLastActivityAt :: string
  accTokens :: "json option"
  accContextWindow :: "json option"
  accToolCalls :: "string list"

definition initAcc :: SummaryAcc where
  "initAcc =
     \<lparr>accMeta = None, accPreview = [], accStartedAt = JStr [], accLastActivityAt = [],
      accTokens = Some JNull, accContextWindow = None, accToolCalls = []\<rparr>"

definition setAdd :: "string \<Rightarrow> string list \<Rightarrow> string list" where
  "setAdd x xs = (if x \<in> set xs then xs else xs @ [x])"

definition responsePart :: "json \<Rightarrow> SummaryAcc \<Rightarrow> SummaryAcc" where
  "responsePart payload acc =
     (let a = (if getProp payload ''type'' = Some (JStr ''message'')
                  \<and> getProp payload ''role'' = Some (JStr ''user'') \<and> accPreview acc = []
               then acc\<lparr>accPreview := composePreview (extractText (getProp payload ''content''))\<rparr>
               else acc)
      in if getProp payload ''type'' = Some (JStr ''function_call'')
            \<or> getProp payload ''type'' = Some (JStr ''custom_tool_call'')
         then (case stringOf (getProp payload ''call_id'') of
                 Some cid \<Rightarrow> a\<lparr>accToolCalls := setAdd cid (accToolCalls a)\<rparr>
               | None \<Rightarrow> a)
         else a)"

definition tokenPart :: "json \<Rightarrow> SummaryAcc \<Rightarrow> SummaryAcc" where
  "tokenPart event acc =
     (if getProp event ''type'' = Some (JStr ''event_msg'') then
        (case toRecord (getProp event ''payload'') of
           None \<Rightarrow> acc
         | Some payload \<Rightarrow>
             if getProp payload ''type'' = Some (JStr ''token_count'')
                \<and> truthy (getProp payload ''info'')
             then acc\<lparr>accTokens := optProp (getProp payload ''info'') ''total_token_usage'',
                      accContextWindow :=
                        optProp (getProp payload ''info'') ''model_context_window''\<rparr>
             else acc)
      else acc)"

text \<open>The head of the loop body: the time bounds follow every non-empty time stamp.\<close>

definition stampPart :: "json \<Rightarrow> SummaryAcc \<Rightarrow> SummaryAcc" where
  "stampPart event acc =
     (case stringOf (getProp event ''timestamp'') of
        None \<Rightarrow> acc
      | Some t \<Rightarrow>
          if t = [] then acc
          else acc\<lparr>accLastActivityAt := t,
                   accStartedAt :=
                     (if truthy (Some (accStartedAt acc)) then accStartedAt acc else JStr t)\<rparr>)"

definition summaryStep :: "SummaryAcc \<Rightarrow> json \<Rightarrow> SummaryAcc" where
  "summaryStep acc event =
     (let acc1 = stampPart event acc
      in if getProp event ''type'' = Some (JStr ''session_meta'') then
           (case toRecord (getProp event ''payload'') of
              None \<Rightarrow> acc1
            | Some payload \<Rightarrow>
                acc1\<lparr>accMeta := Some payload,
                      accStartedAt := orElse (getProp payload ''timestamp'') (accStartedAt acc1)\<rparr>)
         else if getProp event ''type'' = Some (JStr ''response_item'') then
           (case toRecord (getProp event ''payload'') of
              None \<Rightarrow> acc1
            | Some payload \<Rightarrow> tokenPart event (responsePart payload acc1))
         else tokenPart event acc1)"

definition summaryLoop :: "json list \<Rightarrow> SummaryAcc" where
  "summaryLoop events = foldl summaryStep initAcc events"

datatype error = TypeError | ReadError

text \<open>\<^verbatim>\<open>a || b || c\<close> on the start time.\<close>

definition startedOr :: "json \<Rightarrow> json \<Rightarrow> json" where
  "startedOr startedAt meta =
     (if truthy (Some startedAt) then startedAt
      else (case getProp meta ''timestamp'' of
              None \<Rightarrow> JStr epochIso
            | Some t \<Rightarrow> if truthy (Some t) then t else JStr epochIso))"

text \<open>The summary literal. \<^verbatim>\<open>slugify\<close> calls \<^verbatim>\<open>toLowerCase\<close> on \<^verbatim>\<open>meta.cwd ?? "unknown"\<close>, which
  throws a \<^verbatim>\<open>TypeError\<close> when \<^verbatim>\<open>cwd\<close> is neither a string nor \<^verbatim>\<open>null\<close> nor absent.\<close>

definition makeSummary ::
  "runtime \<Rightarrow> string \<Rightarrow> string \<Rightarrow> string \<Rightarrow> json \<Rightarrow> SummaryAcc \<Rightarrow> error + SessionSummary" where
  "makeSummary rt root sessionId filePath meta acc =
     (case orElse (getProp meta ''cwd'') (JStr ''unknown'') of
        JStr cwd \<Rightarrow>
          Inr \<lparr>sumId = sessionId,
               sumProjectId = slugify cwd,
               sumProjectName =
                 (if pathBasename rt cwd [] \<noteq> [] then pathBasename rt cwd []
                  else if cwd \<noteq> [] then cwd else ''unknown''),
               sumProjectPath = cwd,
               sumRelativePath = pathRelative rt root filePath,
               sumStartedAt = startedOr (accStartedAt acc) meta,
               sumLastActivityAt =
                 (if accLastActivityAt acc \<noteq> [] then JStr (accLastActivityAt acc)
                  else startedOr (accStartedAt acc) meta),
               sumPreview =
                 (if accPreview acc \<noteq> [] then accPreview acc else ''(no prompt logged)''),
               sumTotalTokens = orElse (optProp (accTokens acc) ''total_tokens'') (JNum 0),
               sumCachedTokens = orElse (optProp (accTokens acc) ''cached_input_tokens'') (JNum 0),
               sumUserTokens =
                 (if truthy (accTokens acc)
                  then max0 (numSub (toNumber rt (optProp (accTokens acc) ''input_tokens''))
                                    (toNumber rt (optProp (accTokens acc) ''cached_input_tokens'')))
                  else Num 0),
               sumOutputTokens = orElse (optProp (accTokens acc) ''output_tokens'') (JNum 0),
               sumReasoningTokens =
                 orElse (optProp (accTokens acc) ''reasoning_output_tokens'') (JNum 0),
               sumContextWindow = accContextWindow acc,
               sumToolCallCount = length (accToolCalls acc)\<rparr>
      | _ \<Rightarrow> Inl TypeError)"



text \<open>The loop and the summary literal of \<^verbatim>\<open>parseSessionSummary\<close>: no summary without a
  session-meta envelope.\<close>

definition summarize ::
  "runtime \<Rightarrow> string \<Rightarrow> string \<Rightarrow> string \<Rightarrow> json list \<Rightarrow> error + SessionSummary option" where
  "summarize rt root sessionId filePath events =
     (let acc = summaryLoop events
      in (case accMeta acc of
            None \<Rightarrow> Inr None
          | Some meta \<Rightarrow>
              (case makeSummary rt root sessionId filePath meta acc of
                 Inl e \<Rightarrow> Inl e
               | Inr summary \<Rightarrow> Inr (Some summary))))"


section \<open>The message transcript builder\<close>

datatype MessageKind = TextKind | ReasoningKind | StatusKind

record ChatMessage =
  msgId :: string
  msgTimestamp :: string
  msgRole :: json
  msgKind :: MessageKind
  msgText :: string


definition eventTime :: "json \<Rightarrow> string" where
  "eventTime event =
     (case stringOf (getProp event ''timestamp'') of Some t \<Rightarrow> t | None \<Rightarrow> epochIso)"





section \<open>The session detail\<close>

record SessionDetail =
  summary :: SessionSummary
  messages :: "ChatMessage list"
  tokenTimeline :: "TokenTimelinePoint list"
  toolCalls :: "ToolCall list"




section \<open>Notions of the specification\<close>

text \<open>What one line contributes to the decoded sequence.\<close>

definition decodeLine :: "runtime \<Rightarrow> string \<Rightarrow> json list" where
  "decodeLine rt line =
     (let cleaned = lineFilter (trim line)
      in if cleaned = [] then []
         else (case jsonParse rt cleaned of
                 None \<Rightarrow> []
               | Some parsed \<Rightarrow> if isObject parsed then [parsed] else []))"

text \<open>A line that is empty, only white space, or whose text does not parse to a JSON object.\<close>

definition badLine :: "runtime \<Rightarrow> string \<Rightarrow> bool" where
  "badLine rt line =
     (trim line = []
      \<or> (case jsonParse rt (trim line) of None \<Rightarrow> True | Some parsed \<Rightarrow> \<not> isObject parsed))"

text \<open>A usage report that carries a cumulative usage: the envelopes for which
  \<^verbatim>\<open>buildTokenTimeline\<close> pushes a point.\<close>

definition isUsageReport :: "json \<Rightarrow> bool" where
  "isUsageReport event =
     (getProp event ''type'' = Some (JStr ''event_msg'')
      \<and> (case toRecord (getProp event ''payload'') of
            None \<Rightarrow> False
          | Some payload \<Rightarrow>
              getProp payload ''type'' = Some (JStr ''token_count'')
              \<and> truthy (getProp payload ''info'')
              \<and> truthy (optProp (getProp payload ''info'') ''total_token_usage'')))"

text \<open>The number behind a time stamp in milliseconds, \<open>0\<close> standing in for \<^verbatim>\<open>NaN\<close>.\<close>

fun msOf :: "jsnum \<Rightarrow> int" where
  "msOf (Num n) = n"
| "msOf NaN = 0"

text \<open>Usage reports for the examples: without a time stamp, with one that is no date, and
  with dates.\<close>

definition usagePayload :: "int \<Rightarrow> json" where
  "usagePayload n =
     JObj [(''type'', JStr ''token_count''),
           (''info'', JObj [(''total_token_usage'',
              JObj [(''input_tokens'', JNum n), (''cached_input_tokens'', JNum 0),
                    (''output_tokens'', JNum 0), (''reasoning_output_tokens'', JNum 0),
                    (''total_tokens'', JNum n)])])]"

definition usageNoTime :: json where
  "usageNoTime = JObj [(''type'', JStr ''event_msg''), (''payload'', usagePayload 100)]"

definition usageBadTime :: json where
  "usageBadTime =
     JObj [(''timestamp'', JStr ''yesterday''), (''type'', JStr ''event_msg''),
           (''payload'', usagePayload 100)]"

definition usageAt :: "string \<Rightarrow> int \<Rightarrow> json" where
  "usageAt t n =
     JObj [(''timestamp'', JStr t), (''type'', JStr ''event_msg''), (''payload'', usagePayload n)]"

text \<open>The correlation id of a call-start envelope (\<^verbatim>\<open>function_call\<close> or
  \<^verbatim>\<open>custom_tool_call\<close>) and of a call-result envelope (\<^verbatim>\<open>function_call_output\<close> or
  \<^verbatim>\<open>custom_tool_call_output\<close>).\<close>

definition startIdOf :: "json \<Rightarrow> string option" where
  "startIdOf event =
     (if getProp event ''type'' = Some (JStr ''response_item'') then
        (case toRecord (getProp event ''payload'') of
           None \<Rightarrow> None
         | Some payload \<Rightarrow>
             if getProp payload ''type'' = Some (JStr ''function_call'')
                \<or> getProp payload ''type'' = Some (JStr ''custom_tool_call'')
             then stringOf (getProp payload ''call_id'') else None)
      else None)"

definition resultIdOf :: "json \<Rightarrow> string option" where
  "resultIdOf event =
     (if getProp event ''type'' = Some (JStr ''response_item'') then
        (case toRecord (getProp event ''payload'') of
           None \<Rightarrow> None
         | Some payload \<Rightarrow>
             if getProp payload ''type'' = Some (JStr ''function_call_output'')
                \<or> getProp payload ''type'' = Some (JStr ''custom_tool_call_output'')
             then stringOf (getProp payload ''call_id'') else None)
      else None)"

text \<open>A call-start envelope for the id that carries a status other than \<^verbatim>\<open>completed\<close>.\<close>

definition revertsStatus :: "json \<Rightarrow> string \<Rightarrow> bool" where
  "revertsStatus event cid =
     (startIdOf event = Some cid
      \<and> (case toRecord (getProp event ''payload'') of
            None \<Rightarrow> False
          | Some payload \<Rightarrow>
              orElse (getProp payload ''status'') (JStr ''completed'') \<noteq> JStr ''completed''))"

text \<open>The call ids in the order of their first sighting on a call-start envelope.\<close>

definition firstSightings :: "json list \<Rightarrow> string list" where
  "firstSightings events =
     foldl (\<lambda>ids event. case startIdOf event of Some cid \<Rightarrow> setAdd cid ids | None \<Rightarrow> ids)
       [] events"



text \<open>The ledger holds a record for the id whose status is \<^verbatim>\<open>completed\<close>.\<close>

definition completedIn :: "calls \<Rightarrow> string \<Rightarrow> bool" where
  "completedIn calls cid =
     (case map_of calls cid of Some c \<Rightarrow> tcStatus c = JStr ''completed'' | None \<Rightarrow> False)"

text \<open>The status of the records with the given id in the returned list.\<close>

definition statusOf :: "string \<Rightarrow> ToolCall list \<Rightarrow> json list" where
  "statusOf cid records = map tcStatus (filter (\<lambda>c. tcId c = cid) records)"

text \<open>Tool-call envelopes for the examples.\<close>

definition functionCall :: "string \<Rightarrow> string \<Rightarrow> json" where
  "functionCall t cid =
     JObj [(''timestamp'', JStr t), (''type'', JStr ''response_item''),
           (''payload'', JObj [(''type'', JStr ''function_call''), (''name'', JStr ''shell''),
                               (''arguments'', JStr ''{}''), (''call_id'', JStr cid)])]"


definition functionCallStatus :: "string \<Rightarrow> string \<Rightarrow> string \<Rightarrow> json" where
  "functionCallStatus t cid st =
     JObj [(''timestamp'', JStr t), (''type'', JStr ''response_item''),
           (''payload'', JObj [(''type'', JStr ''function_call''), (''name'', JStr ''shell''),
                               (''arguments'', JStr ''{}''), (''call_id'', JStr cid),
                               (''status'', JStr st)])]"

definition functionCallOutput :: "string \<Rightarrow> string \<Rightarrow> json" where
  "functionCallOutput t cid =
     JObj [(''timestamp'', JStr t), (''type'', JStr ''response_item''),
           (''payload'', JObj [(''type'', JStr ''function_call_output''),
                               (''call_id'', JStr cid), (''output'', JStr ''ok'')])]"

text \<open>The envelopes of the end-to-end scenario.\<close>

definition sessionMeta :: "string \<Rightarrow> string \<Rightarrow> json" where
  "sessionMeta t cwd =
     JObj [(''timestamp'', JStr t), (''type'', JStr ''session_meta''),
           (''payload'', JObj [(''id'', JStr ''abc''), (''timestamp'', JStr t),
                               (''cwd'', JStr cwd)])]"

definition userMessage :: "string \<Rightarrow> string list \<Rightarrow> json" where
  "userMessage t segments =
     JObj [(''timestamp'', JStr t), (''type'', JStr ''response_item''),
           (''payload'',
            JObj [(''type'', JStr ''message''), (''role'', JStr ''user''),
                  (''content'',
                   JArr (map (\<lambda>s. JObj [(''type'', JStr ''input_text''), (''text'', JStr s)])
                           segments))])]"

definition scenario ::
  "string \<Rightarrow> string \<Rightarrow> string \<Rightarrow> string \<Rightarrow> string \<Rightarrow> string \<Rightarrow> json list" where
  "scenario t0 t1 t2 t3 t4 t5 =
     [sessionMeta t0 ''/home/u/proj'', userMessage t1 [''fix bug''], functionCall t2 ''c1'',
      functionCallOutput t3 ''c1'', usageAt t4 100, usageAt t5 150]"




text \<open>White space collapsed to single spaces: no two neighbours are both white space, and
  the only white space character is the space. Trimmed: no white space at either end.\<close>

definition apart :: "char \<Rightarrow> char \<Rightarrow> bool" where
  "apart a b = (\<not> (isSpace a \<and> isSpace b))"

definition singleSpaced :: "string \<Rightarrow> bool" where
  "singleSpaced s = (successively apart s \<and> list_all (\<lambda>c. isSpace c \<longrightarrow> c = CHR '' '') s)"

definition trimmed :: "string \<Rightarrow> bool" where
  "trimmed s = (s = [] \<or> (\<not> isSpace (hd s) \<and> \<not> isSpace (last s)))"

text \<open>A prompt of more than 180 characters.\<close>

definition longPrompt :: string where
  "longPrompt =
     ''please refactor the parser so that every token carries its source posi'' @
     ''tion and then update the tests that compare token streams and also rem'' @
     ''ember to document the new field in the module header comment thanks''"

section \<open>A runtime for evaluating examples\<close>

text \<open>
  The theorems hold for every runtime. To evaluate the builders on concrete logs, this
  runtime reads dates of the form \<^verbatim>\<open>YYYY-MM-DDTHH:mm:ss.sssZ\<close>, parses the JSON texts of a
  small table, reads unsigned decimal numerals, and follows POSIX for paths.
\<close>

fun digitsVal :: "string \<Rightarrow> int \<Rightarrow> int option" where
  "digitsVal [] acc = Some acc"
| "digitsVal (c # cs) acc =
     (if isDigit c then digitsVal cs (10 * acc + (int (of_char c) - 48)) else None)"

definition daysFromCivil :: "int \<Rightarrow> int \<Rightarrow> int \<Rightarrow> int" where
  "daysFromCivil y m d =
     (let y' = (if m \<le> 2 then y - 1 else y);
          era = y' div 400;
          yoe = y' - era * 400;
          doy = (153 * ((m + 9) mod 12) + 2) div 5 + d - 1;
          doe = yoe * 365 + yoe div 4 - yoe div 100 + doy
      in era * 146097 + doe - 719468)"

definition isoDateMs :: "string \<Rightarrow> jsnum" where
  "isoDateMs s =
     (if length s = 24 \<and> s ! 4 = CHR ''-'' \<and> s ! 7 = CHR ''-'' \<and> s ! 10 = CHR ''T''
         \<and> s ! 13 = CHR '':'' \<and> s ! 16 = CHR '':'' \<and> s ! 19 = CHR ''.'' \<and> s ! 23 = CHR ''Z''
      then
        (case (digitsVal (take 4 s) 0, digitsVal (take 2 (drop 5 s)) 0,
               digitsVal (take 2 (drop 8 s)) 0, digitsVal (take 2 (drop 11 s)) 0,
               digitsVal (take 2 (drop 14 s)) 0, digitsVal (take 2 (drop 17 s)) 0,
               digitsVal (take 3 (drop 20 s)) 0) of
           (Some y, Some mo, Some d, Some h, Some mi, Some se, Some ms) \<Rightarrow>
             if 1 \<le> mo \<and> mo \<le> 12 \<and> 1 \<le> d
                \<and> daysFromCivil y mo d < daysFromCivil (if mo = 12 then y + 1 else y)
                                              (if mo = 12 then 1 else mo + 1) 1
                \<and> h \<le> 23 \<and> mi \<le> 59 \<and> se \<le> 59
             then Num ((((daysFromCivil y mo d * 24 + h) * 60 + mi) * 60 + se) * 1000 + ms)
             else NaN
         | _ \<Rightarrow> NaN)
      else NaN)"

definition decimalNumber :: "string \<Rightarrow> jsnum" where
  "decimalNumber s = (case digitsVal s 0 of Some n \<Rightarrow> Num n | None \<Rightarrow> NaN)"

definition posixBasename :: "string \<Rightarrow> string \<Rightarrow> string" where
  "posixBasename p suffix =
     (let base = rev (takeWhile (\<lambda>c. c \<noteq> CHR ''/'')
                        (dropWhile (\<lambda>c. c = CHR ''/'') (rev p)))
      in if suffix \<noteq> [] \<and> length suffix < length base
            \<and> drop (length base - length suffix) base = suffix
         then take (length base - length suffix) base else base)"

definition posixRelative :: "string \<Rightarrow> string \<Rightarrow> string" where
  "posixRelative root p =
     (if startsWith p (root @ ''/'') then drop (Suc (length root)) p else p)"

text \<open>The JSON texts of the table: the envelopes of the examples, one to a line.\<close>

definition userMessageLine :: string where
  "userMessageLine =
     ''{\"timestamp\":\"2024-01-01T00:00:01.000Z\",\"type\":\"response_item\",'' @
     ''\"payload\":{\"type\":\"message\",\"role\":\"user\",'' @
     ''\"content\":[{\"type\":\"input_text\",\"text\":\"fix bug\"}]}}''"

definition functionCallLine :: string where
  "functionCallLine =
     ''{\"timestamp\":\"2024-01-01T00:00:02.000Z\",\"type\":\"response_item\",'' @
     ''\"payload\":{\"type\":\"function_call\",\"name\":\"shell\",'' @
     ''\"arguments\":\"{}\",\"call_id\":\"c1\"}}''"

definition functionCallOutputLine :: string where
  "functionCallOutputLine =
     ''{\"timestamp\":\"2024-01-01T00:00:07.000Z\",\"type\":\"response_item\",'' @
     ''\"payload\":{\"type\":\"function_call_output\",\"call_id\":\"c1\",\"output\":\"ok\"}}''"

definition usageLine :: string where
  "usageLine =
     ''{\"timestamp\":\"2024-01-01T00:00:08.000Z\",\"type\":\"event_msg\",'' @
     ''\"payload\":{\"type\":\"token_count\",\"info\":{\"total_token_usage\":'' @
     ''{\"input_tokens\":100,\"cached_input_tokens\":0,\"output_tokens\":0,'' @
     ''\"reasoning_output_tokens\":0,\"total_tokens\":100}}}}''"

definition sessionMetaLine :: string where
  "sessionMetaLine =
     ''{\"timestamp\":\"2024-01-01T00:00:00.000Z\",\"type\":\"session_meta\",'' @
     ''\"payload\":{\"id\":\"abc\",\"timestamp\":\"2024-01-01T00:00:00.000Z\",'' @
     ''\"cwd\":\"/home/u/proj\"}}''"

definition exampleJson :: "(string \<times> json) list" where
  "exampleJson =
     [(''{}'', JObj []),
      (''{\"type\":\"session_meta\"}'', JObj [(''type'', JStr ''session_meta'')]),
      (''[1]'', JArr [JNum 1]),
      (''null'', JNull),
      (userMessageLine, userMessage ''2024-01-01T00:00:01.000Z'' [''fix bug'']),
      (functionCallLine, functionCall ''2024-01-01T00:00:02.000Z'' ''c1''),
      (functionCallOutputLine, functionCallOutput ''2024-01-01T00:00:07.000Z'' ''c1''),
      (usageLine, usageAt ''2024-01-01T00:00:08.000Z'' 100),
      (sessionMetaLine, sessionMeta ''2024-01-01T00:00:00.000Z'' ''/home/u/proj'')]"

definition exampleRuntime :: runtime where
  "exampleRuntime =
     \<lparr>jsonParse = map_of exampleJson, dateMs = isoDateMs, stringToNumber = decimalNumber,
      pathBasename = posixBasename, pathRelative = posixRelative\<rparr>"






section \<open>Properties of the event reader\<close>

lemmas exampleLines = userMessageLine_def functionCallLine_def functionCallOutputLine_def
  usageLine_def sessionMetaLine_def

lemma splitLines_plain: "newline \<notin> set l \<Longrightarrow> splitLines l = [l]"
  by (induction l) auto

lemma splitLines_append: "newline \<notin> set l \<Longrightarrow> splitLines (l @ newline # r) = l # splitLines r"
  by (induction l) auto

lemma splitLines_join:
  "ls \<noteq> [] \<Longrightarrow> \<forall>l\<in>set ls. newline \<notin> set l \<Longrightarrow> splitLines (joinWith [newline] ls) = ls"
  by (induction "[newline]" ls rule: joinWith.induct)
     (auto simp: splitLines_plain splitLines_append)

lemma readLoop_concat: "readLoop rt ls acc = acc @ concat (map (decodeLine rt) ls)"
  by (induction ls arbitrary: acc) (auto simp: decodeLine_def Let_def split: option.splits)

lemma badLine_decode: "badLine rt line \<Longrightarrow> decodeLine rt line = []"
  by (auto simp: badLine_def decodeLine_def lineFilter_def Let_def split: option.splits if_splits)

lemma readJsonl_lines:
  assumes "\<forall>l\<in>set ls. newline \<notin> set l"
  shows "readJsonl rt (joinWith [newline] ls) = concat (map (decodeLine rt) ls)"
proof (cases "ls = []")
  case True
  then show ?thesis
    by (simp add: readJsonl_def lineFilter_def trim_def)
next
  case False
  with assms show ?thesis
    by (simp add: readJsonl_def splitLines_join readLoop_concat)
qed

text \<open>
  Claim C7. The reader decodes line by line: the text made of the lines \<open>pre\<close>, one bad line
  (empty, white space only, or not parsing to a JSON object) and the lines \<open>post\<close> decodes to
  the same events as the text without the bad line, and these are the events of the single
  lines, in order. \<^const>\<open>readJsonl\<close> is a total function: no line makes the read fail.
\<close>

theorem readJsonl_bad_line_dropped:
  assumes "list_all (\<lambda>l. newline \<notin> set l) (pre @ bad # post)"
      and "badLine rt bad"
  shows "readJsonl rt (joinWith [newline] (pre @ bad # post))
           = readJsonl rt (joinWith [newline] (pre @ post))
         \<and> readJsonl rt (joinWith [newline] (pre @ post))
           = concat (map (decodeLine rt) (pre @ post))"
proof -
  from assms(1) have all: "\<forall>l\<in>set (pre @ bad # post). newline \<notin> set l"
    by (simp add: list_all_iff)
  then have rest: "\<forall>l\<in>set (pre @ post). newline \<notin> set l"
    by auto
  have "readJsonl rt (joinWith [newline] (pre @ bad # post))
          = concat (map (decodeLine rt) (pre @ bad # post))"
    using all by (rule readJsonl_lines)
  also have "\<dots> = concat (map (decodeLine rt) (pre @ post))"
    using assms(2) by (simp add: badLine_decode)
  finally show ?thesis
    using rest by (simp add: readJsonl_lines)
qed

theorem readJsonl_bad_line_dropped_witness:
  "list_all (\<lambda>l. newline \<notin> set l)
     ([''{}''] @ ''not json'' # [''{\"type\":\"session_meta\"}''])
   \<and> badLine exampleRuntime ''not json''
   \<and> readJsonl exampleRuntime
        (joinWith [newline] ([''{}''] @ ''not json'' # [''{\"type\":\"session_meta\"}'']))
      = readJsonl exampleRuntime (joinWith [newline] ([''{}''] @ [''{\"type\":\"session_meta\"}'']))
   \<and> readJsonl exampleRuntime (joinWith [newline] ([''{}''] @ [''{\"type\":\"session_meta\"}'']))
      = [JObj [], JObj [(''type'', JStr ''session_meta'')]]"
proof -
  have nl: "list_all (\<lambda>l. newline \<notin> set l)
              ([''{}''] @ ''not json'' # [''{\"type\":\"session_meta\"}''])"
    by (simp add: newline_def)
  have bad: "badLine exampleRuntime ''not json''"
    by (simp add: badLine_def exampleRuntime_def exampleJson_def exampleLines trim_def
        isSpace_def)
  have dec: "concat (map (decodeLine exampleRuntime) ([''{}''] @ [''{\"type\":\"session_meta\"}'']))
      = [JObj [], JObj [(''type'', JStr ''session_meta'')]]"
    by (simp add: decodeLine_def lineFilter_def startsWith_def trim_def isSpace_def
        exampleRuntime_def exampleJson_def)
  show ?thesis
    using readJsonl_bad_line_dropped [OF nl bad] nl bad dec by simp
qed

section \<open>Properties of the sort\<close>

lemma mset_insertBy: "mset (insertBy cmp x xs) = add_mset x (mset xs)"
  by (induction xs) auto

lemma mset_sortBy: "mset (sortBy cmp xs) = mset xs"
  by (induction xs) (auto simp: sortBy_def mset_insertBy)

lemma set_sortBy: "set (sortBy cmp xs) = set xs"
  using mset_sortBy [of cmp xs] by (metis set_mset_mset)

lemma length_sortBy: "length (sortBy cmp xs) = length xs"
  using mset_sortBy [of cmp xs] by (metis size_mset)

lemma sortBy_Cons: "sortBy cmp (x # xs) = insertBy cmp x (sortBy cmp xs)"
  by (simp add: sortBy_def)

lemma set_insertBy: "set (insertBy cmp x xs) = insert x (set xs)"
  by (induction xs) auto

text \<open>Where the comparator is positive exactly on the pairs that a key puts in descending
  order, the result is sorted by that key.\<close>

lemma insertBy_sorted:
  fixes key :: "'a \<Rightarrow> 'b::linorder"
  assumes "\<forall>y\<in>set ys. (cmp x y > 0) = (key y < key x)" and "sorted (map key ys)"
  shows "sorted (map key (insertBy cmp x ys))"
  using assms by (induction ys) (auto simp: set_insertBy)

lemma sortBy_sorted:
  fixes key :: "'a \<Rightarrow> 'b::linorder"
  assumes "\<forall>x\<in>set xs. \<forall>y\<in>set xs. (cmp x y > 0) = (key y < key x)"
  shows "sorted (map key (sortBy cmp xs))"
  using assms
proof (induction xs)
  case Nil
  then show ?case by (simp add: sortBy_def)
next
  case (Cons x xs)
  then have "sorted (map key (sortBy cmp xs))" by simp
  moreover have "\<forall>y\<in>set (sortBy cmp xs). (cmp x y > 0) = (key y < key x)"
    using Cons.prems by (simp add: set_sortBy)
  ultimately show ?case
    by (simp add: sortBy_Cons insertBy_sorted)
qed

text \<open>Where the comparator is never positive, nothing moves.\<close>

lemma insertBy_keep: "\<forall>y\<in>set ys. cmp x y \<le> 0 \<Longrightarrow> insertBy cmp x ys = x # ys"
  by (cases ys) auto

lemma sortBy_keep:
  "\<forall>x\<in>set xs. \<forall>y\<in>set xs. cmp x y \<le> 0 \<Longrightarrow> sortBy cmp xs = xs"
  by (induction xs) (auto simp: sortBy_def insertBy_keep)

text \<open>Elements that no element is greater than keep their relative order.\<close>

lemma filter_insertBy:
  assumes "\<forall>y. P y \<longrightarrow> cmp x y \<le> 0"
  shows "filter P (insertBy cmp x ys) = filter P (x # ys)"
  using assms by (induction ys) (auto simp: not_less [symmetric])

lemma filter_sortBy:
  assumes "\<forall>x y. P y \<longrightarrow> cmp x y \<le> 0"
  shows "filter P (sortBy cmp xs) = filter P xs"
proof (induction xs)
  case Nil
  show ?case by (simp add: sortBy_def)
next
  case (Cons x xs)
  have "filter P (insertBy cmp x (sortBy cmp xs)) = filter P (x # sortBy cmp xs)"
    using assms by (intro filter_insertBy) simp
  then show ?case
    using Cons.IH by (simp add: sortBy_Cons)
qed

section \<open>Properties of the token timeline\<close>

lemma timelineStep_append: "timelineStep rt pts e = pts @ timelineStep rt [] e"
  by (auto simp: timelineStep_def Let_def split: option.splits)

lemma timelineStep_usage:
  "map ptTimestamp (timelineStep rt [] e) = (if isUsageReport e then [eventTime e] else [])"
  "map ptTimestampMs (timelineStep rt [] e)
     = (if isUsageReport e then [dateMs rt (eventTime e)] else [])"
  by (auto simp: timelineStep_def isUsageReport_def eventTime_def Let_def split: option.splits)

lemma timelinePoints_foldl:
  "foldl (timelineStep rt) pts es = pts @ concat (map (timelineStep rt []) es)"
proof (induction es arbitrary: pts)
  case Nil
  then show ?case by simp
next
  case (Cons e es)
  show ?case
    by (simp add: Cons.IH [of "timelineStep rt pts e"])
       (simp add: timelineStep_append [of rt pts e])
qed

lemma timelinePoints_stamps:
  "map ptTimestamp (timelinePoints rt es) = map eventTime (filter isUsageReport es)"
  "map ptTimestampMs (timelinePoints rt es)
     = map (\<lambda>e. dateMs rt (eventTime e)) (filter isUsageReport es)"
  by (induction es)
     (auto simp: timelinePoints_def timelinePoints_foldl map_concat timelineStep_usage)

lemma timelineStep_ms:
  "p \<in> set (timelineStep rt [] e) \<Longrightarrow> ptTimestampMs p = dateMs rt (ptTimestamp p)"
  by (simp add: timelineStep_def split: option.splits if_splits)

lemma timelinePoints_ms:
  "\<forall>p\<in>set (timelinePoints rt es). ptTimestampMs p = dateMs rt (ptTimestamp p)"
  using timelineStep_ms by (auto simp: timelinePoints_def timelinePoints_foldl)

text \<open>
  Claim C3, as the code has it. The timeline builder drops no usage report: every usage
  report gives one point, whatever its time stamp. A report without a time stamp gets
  \<^verbatim>\<open>1970-01-01T00:00:00.000Z\<close>, and \<^verbatim>\<open>timestampMs\<close> is what the runtime reads from the time
  stamp, \<^verbatim>\<open>NaN\<close> when it is no date.
\<close>

theorem timeline_keeps_every_usage_report:
  "mset (map ptTimestamp (buildTokenTimeline rt events))
     = mset (map eventTime (filter isUsageReport events))
   \<and> length (buildTokenTimeline rt events) = length (filter isUsageReport events)
   \<and> list_all (\<lambda>p. ptTimestampMs p = dateMs rt (ptTimestamp p)) (buildTokenTimeline rt events)"
proof -
  have "mset (map ptTimestamp (buildTokenTimeline rt events))
          = mset (map ptTimestamp (timelinePoints rt events))"
    by (simp add: buildTokenTimeline_def mset_sortBy)
  then have a: "mset (map ptTimestamp (buildTokenTimeline rt events))
                  = mset (map eventTime (filter isUsageReport events))"
    by (simp add: timelinePoints_stamps(1))
  have "length (buildTokenTimeline rt events) = length (map ptTimestamp (timelinePoints rt events))"
    by (simp add: buildTokenTimeline_def length_sortBy)
  then have b: "length (buildTokenTimeline rt events) = length (filter isUsageReport events)"
    by (simp add: timelinePoints_stamps(1))
  have c: "list_all (\<lambda>p. ptTimestampMs p = dateMs rt (ptTimestamp p))
             (buildTokenTimeline rt events)"
    using timelinePoints_ms [of rt events]
    by (simp add: list_all_iff buildTokenTimeline_def set_sortBy)
  from a b c show ?thesis by simp
qed

text \<open>Claim C3 as stated fails: a usage report without a time stamp and one whose time stamp
  is no date both have their point in the timeline.\<close>

theorem timeline_keeps_untimed_counterexample:
  "map ptTimestamp (buildTokenTimeline exampleRuntime [usageNoTime, usageBadTime])
     = [''1970-01-01T00:00:00.000Z'', ''yesterday'']
   \<and> map ptTimestampMs (buildTokenTimeline exampleRuntime [usageNoTime, usageBadTime])
     = [Num 0, NaN]"
  by (simp add: buildTokenTimeline_def timelinePoints_def timelineStep_def sortBy_def
      comparePoints_def usageNoTime_def usageBadTime_def usagePayload_def epochIso_def
      exampleRuntime_def isoDateMs_def isDigit_def daysFromCivil_def)

lemma sorted_numLe:
  "\<forall>x\<in>set xs. x \<noteq> NaN \<Longrightarrow> sorted (map msOf xs) \<Longrightarrow> sorted_wrt numLe xs"
proof (induction xs)
  case Nil
  then show ?case by simp
next
  case (Cons x xs)
  have "numLe x y" if "y \<in> set xs" for y
  proof -
    from that Cons.prems(2) have le: "msOf x \<le> msOf y"
      by auto
    from that Cons.prems(1) have "x \<noteq> NaN" "y \<noteq> NaN"
      by auto
    with le show ?thesis
      by (cases x; cases y) simp_all
  qed
  with Cons show ?case by simp
qed

lemma comparePoints_pos:
  "ptTimestampMs a \<noteq> NaN \<Longrightarrow> ptTimestampMs b \<noteq> NaN \<Longrightarrow>
   (comparePoints a b > 0) = (msOf (ptTimestampMs b) < msOf (ptTimestampMs a))"
  by (cases "ptTimestampMs a"; cases "ptTimestampMs b") (auto simp: comparePoints_def)

text \<open>
  Claim C4, as the code has it. When the time stamp of every usage report is absent or reads
  as a date (no \<^verbatim>\<open>timestampMs\<close> is \<^verbatim>\<open>NaN\<close>), the returned points have non-decreasing
  \<^verbatim>\<open>timestampMs\<close>.
\<close>

theorem timeline_sorted_when_dates_parse:
  assumes "list_all (\<lambda>e. dateMs rt (eventTime e) \<noteq> NaN) (filter isUsageReport events)"
  shows "sorted_wrt numLe (map ptTimestampMs (buildTokenTimeline rt events))"
proof -
  let ?pts = "timelinePoints rt events"
  have "\<forall>x\<in>set (map ptTimestampMs ?pts). x \<noteq> NaN"
    using assms by (simp add: timelinePoints_stamps(2) list_all_iff)
  then have fin: "\<forall>p\<in>set ?pts. ptTimestampMs p \<noteq> NaN"
    by simp
  then have "\<forall>a\<in>set ?pts. \<forall>b\<in>set ?pts.
      (comparePoints a b > 0) = ((msOf \<circ> ptTimestampMs) b < (msOf \<circ> ptTimestampMs) a)"
    by (simp add: comparePoints_pos)
  then have "sorted (map (msOf \<circ> ptTimestampMs) (sortBy comparePoints ?pts))"
    by (rule sortBy_sorted)
  then have "sorted (map msOf (map ptTimestampMs (buildTokenTimeline rt events)))"
    by (simp add: buildTokenTimeline_def)
  moreover have "\<forall>x\<in>set (map ptTimestampMs (buildTokenTimeline rt events)). x \<noteq> NaN"
    using fin by (simp add: buildTokenTimeline_def set_sortBy)
  ultimately show ?thesis
    by (intro sorted_numLe)
qed

theorem timeline_sorted_when_dates_parse_witness:
  "list_all (\<lambda>e. dateMs exampleRuntime (eventTime e) \<noteq> NaN)
     (filter isUsageReport
        [usageAt ''2024-01-01T00:00:05.000Z'' 150, usageAt ''2024-01-01T00:00:01.000Z'' 100,
         usageNoTime])
   \<and> sorted_wrt numLe (map ptTimestampMs
        (buildTokenTimeline exampleRuntime
           [usageAt ''2024-01-01T00:00:05.000Z'' 150, usageAt ''2024-01-01T00:00:01.000Z'' 100,
            usageNoTime]))
   \<and> map ptTimestampMs
        (buildTokenTimeline exampleRuntime
           [usageAt ''2024-01-01T00:00:05.000Z'' 150, usageAt ''2024-01-01T00:00:01.000Z'' 100,
            usageNoTime])
      = [Num 0, Num 1704067201000, Num 1704067205000]"
proof -
  have h: "list_all (\<lambda>e. dateMs exampleRuntime (eventTime e) \<noteq> NaN)
     (filter isUsageReport
        [usageAt ''2024-01-01T00:00:05.000Z'' 150, usageAt ''2024-01-01T00:00:01.000Z'' 100,
         usageNoTime])"
    by (simp add: isUsageReport_def eventTime_def usageAt_def usageNoTime_def usagePayload_def
        epochIso_def exampleRuntime_def isoDateMs_def isDigit_def daysFromCivil_def)
  have v: "map ptTimestampMs
        (buildTokenTimeline exampleRuntime
           [usageAt ''2024-01-01T00:00:05.000Z'' 150, usageAt ''2024-01-01T00:00:01.000Z'' 100,
            usageNoTime])
      = [Num 0, Num 1704067201000, Num 1704067205000]"
    by (simp add: buildTokenTimeline_def timelinePoints_def timelineStep_def sortBy_def
      comparePoints_def usageAt_def usageNoTime_def usagePayload_def epochIso_def
      exampleRuntime_def isoDateMs_def isDigit_def daysFromCivil_def)
  show ?thesis
    using timeline_sorted_when_dates_parse [OF h] h v by simp
qed

text \<open>Claim C4 as stated fails: a point whose time stamp is no date has \<^verbatim>\<open>timestampMs\<close>
  \<^verbatim>\<open>NaN\<close>, which is not below or equal to the next point's.\<close>

theorem timeline_unsorted_counterexample:
  "\<not> sorted_wrt numLe (map ptTimestampMs
        (buildTokenTimeline exampleRuntime
           [usageBadTime, usageAt ''2024-01-01T00:00:00.000Z'' 150]))"
  by (simp add: buildTokenTimeline_def timelinePoints_def timelineStep_def sortBy_def
      comparePoints_def usageAt_def usageBadTime_def usagePayload_def epochIso_def
      exampleRuntime_def isoDateMs_def isDigit_def daysFromCivil_def)

section \<open>Properties of the tool-call reconciler\<close>

lemma map_of_keys: "map_of calls k = Some v \<Longrightarrow> k \<in> fst ` set calls"
  by (metis map_of_eq_None_iff option.distinct(1))


lemma keys_onFunctionCall:
  "map fst (onFunctionCall p ts calls) =
     (if getProp p ''type'' = Some (JStr ''function_call'')
      then (case stringOf (getProp p ''call_id'') of
              Some cid \<Rightarrow> setAdd cid (map fst calls) | None \<Rightarrow> map fst calls)
      else map fst calls)"
  by (simp add: onFunctionCall_def Let_def update_keys setAdd_def split: option.splits)

lemma keys_onCustomCall:
  "map fst (onCustomCall p ts calls) =
     (if getProp p ''type'' = Some (JStr ''custom_tool_call'')
      then (case stringOf (getProp p ''call_id'') of
              Some cid \<Rightarrow> setAdd cid (map fst calls) | None \<Rightarrow> map fst calls)
      else map fst calls)"
  by (simp add: onCustomCall_def Let_def update_keys setAdd_def split: option.splits)

lemma keys_onFunctionOutput: "map fst (onFunctionOutput p ts calls) = map fst calls"
  by (auto simp: onFunctionOutput_def Let_def update_keys dest: map_of_keys split: option.splits)

lemma keys_onCustomOutput: "map fst (onCustomOutput rt p ts calls) = map fst calls"
  by (auto simp: onCustomOutput_def Let_def update_keys dest: map_of_keys split: option.splits)

lemma toolStep_keys:
  "map fst (toolStep rt calls e) =
     (case startIdOf e of Some cid \<Rightarrow> setAdd cid (map fst calls) | None \<Rightarrow> map fst calls)"
  by (auto simp: toolStep_def startIdOf_def Let_def keys_onFunctionCall keys_onCustomCall
        keys_onFunctionOutput keys_onCustomOutput split: option.splits)

lemma foldl_toolStep_keys:
  "map fst (foldl (toolStep rt) calls es) =
     foldl (\<lambda>ids event. case startIdOf event of Some cid \<Rightarrow> setAdd cid ids | None \<Rightarrow> ids)
       (map fst calls) es"
  by (induction es arbitrary: calls) (simp_all add: toolStep_keys)

lemma reconcile_keys: "map fst (reconcile rt es) = firstSightings es"
  by (simp add: reconcile_def firstSightings_def foldl_toolStep_keys)

lemma foldl_sightings:
  "distinct ids \<Longrightarrow>
   distinct (foldl (\<lambda>ids event. case startIdOf event of Some cid \<Rightarrow> setAdd cid ids | None \<Rightarrow> ids) ids es)
   \<and> set (foldl (\<lambda>ids event. case startIdOf event of Some cid \<Rightarrow> setAdd cid ids | None \<Rightarrow> ids) ids es)
       = set ids \<union> {cid. \<exists>e\<in>set es. startIdOf e = Some cid}"
proof (induction es arbitrary: ids)
  case Nil
  then show ?case by simp
next
  case (Cons e es)
  let ?ids = "case startIdOf e of Some cid \<Rightarrow> setAdd cid ids | None \<Rightarrow> ids"
  have d: "distinct ?ids"
    using Cons.prems by (simp add: setAdd_def split: option.splits)
  have s: "set ?ids = set ids \<union> {cid. startIdOf e = Some cid}"
    by (auto simp: setAdd_def split: option.splits)
  from Cons.IH [OF d] s show ?case
    by auto
qed

lemma firstSightings_distinct: "distinct (firstSightings es)"
  and firstSightings_set: "set (firstSightings es) = {cid. \<exists>e\<in>set es. startIdOf e = Some cid}"
  using foldl_sightings [of "[]" es] by (simp_all add: firstSightings_def)

lemma completed_onFunctionOutput:
  "completedIn calls cid \<Longrightarrow> completedIn (onFunctionOutput p ts calls) cid"
  by (auto simp: completedIn_def onFunctionOutput_def Let_def update_conv' split: option.splits)

lemma completed_onCustomOutput:
  "completedIn calls cid \<Longrightarrow> completedIn (onCustomOutput rt p ts calls) cid"
  by (auto simp: completedIn_def onCustomOutput_def Let_def update_conv' split: option.splits)

lemma completed_onFunctionCall:
  "completedIn calls cid \<Longrightarrow>
   \<not> (getProp p ''type'' = Some (JStr ''function_call'') \<and> stringOf (getProp p ''call_id'') = Some cid
      \<and> orElse (getProp p ''status'') (JStr ''completed'') \<noteq> JStr ''completed'') \<Longrightarrow>
   completedIn (onFunctionCall p ts calls) cid"
  by (auto simp: completedIn_def onFunctionCall_def Let_def update_conv' split: option.splits)

lemma completed_onCustomCall:
  "completedIn calls cid \<Longrightarrow>
   \<not> (getProp p ''type'' = Some (JStr ''custom_tool_call'') \<and> stringOf (getProp p ''call_id'') = Some cid
      \<and> orElse (getProp p ''status'') (JStr ''completed'') \<noteq> JStr ''completed'') \<Longrightarrow>
   completedIn (onCustomCall p ts calls) cid"
  by (auto simp: completedIn_def onCustomCall_def Let_def update_conv' split: option.splits)

lemma completed_toolStep:
  assumes "completedIn calls cid" and "\<not> revertsStatus e cid"
  shows "completedIn (toolStep rt calls e) cid"
proof (cases "getProp e ''type'' = Some (JStr ''response_item'')")
  case False
  with assms show ?thesis by (simp add: toolStep_def)
next
  case item: True
  show ?thesis
  proof (cases "toRecord (getProp e ''payload'')")
    case None
    with assms show ?thesis by (simp add: toolStep_def)
  next
    case (Some p)
    from assms(2) item Some
    have fc: "\<not> (getProp p ''type'' = Some (JStr ''function_call'')
                 \<and> stringOf (getProp p ''call_id'') = Some cid
                 \<and> orElse (getProp p ''status'') (JStr ''completed'') \<noteq> JStr ''completed'')"
      and cc: "\<not> (getProp p ''type'' = Some (JStr ''custom_tool_call'')
                 \<and> stringOf (getProp p ''call_id'') = Some cid
                 \<and> orElse (getProp p ''status'') (JStr ''completed'') \<noteq> JStr ''completed'')"
      by (auto simp: revertsStatus_def startIdOf_def)
    show ?thesis
      using item Some
      by (simp add: toolStep_def Let_def completed_onCustomOutput completed_onCustomCall
          completed_onFunctionOutput completed_onFunctionCall assms(1) fc cc)
  qed
qed

lemma completed_foldl:
  "completedIn calls cid \<Longrightarrow> list_all (\<lambda>e. \<not> revertsStatus e cid) es \<Longrightarrow>
   completedIn (foldl (toolStep rt) calls es) cid"
  by (induction es arbitrary: calls) (simp_all add: completed_toolStep)


text \<open>Every record is stored under its own id.\<close>

lemma set_update:
  "(k', v') \<in> set (AList.update k v al) \<Longrightarrow> (k', v') = (k, v) \<or> (k', v') \<in> set al"
  by (induction al) (auto split: if_splits)

lemma keyed_update:
  "list_all (\<lambda>(k, c). tcId c = k) calls \<Longrightarrow> tcId v = k \<Longrightarrow>
   list_all (\<lambda>(k, c). tcId c = k) (AList.update k v calls)"
  by (auto simp: list_all_iff dest: set_update)

lemma keyed_lookup:
  "list_all (\<lambda>(k, c). tcId c = k) calls \<Longrightarrow> map_of calls k = Some c \<Longrightarrow> tcId c = k"
  by (auto simp: list_all_iff dest: map_of_SomeD)

lemma keyed_onFunctionCall:
  "list_all (\<lambda>(k, c). tcId c = k) calls \<Longrightarrow>
   list_all (\<lambda>(k, c). tcId c = k) (onFunctionCall p ts calls)"
  by (auto simp: onFunctionCall_def Let_def intro!: keyed_update dest: keyed_lookup
        split: option.splits)

lemma keyed_onCustomCall:
  "list_all (\<lambda>(k, c). tcId c = k) calls \<Longrightarrow>
   list_all (\<lambda>(k, c). tcId c = k) (onCustomCall p ts calls)"
  by (auto simp: onCustomCall_def Let_def intro!: keyed_update dest: keyed_lookup
        split: option.splits)

lemma keyed_onFunctionOutput:
  "list_all (\<lambda>(k, c). tcId c = k) calls \<Longrightarrow>
   list_all (\<lambda>(k, c). tcId c = k) (onFunctionOutput p ts calls)"
  by (auto simp: onFunctionOutput_def Let_def intro!: keyed_update dest: keyed_lookup
        split: option.splits)

lemma keyed_onCustomOutput:
  "list_all (\<lambda>(k, c). tcId c = k) calls \<Longrightarrow>
   list_all (\<lambda>(k, c). tcId c = k) (onCustomOutput rt p ts calls)"
  by (auto simp: onCustomOutput_def Let_def intro!: keyed_update dest: keyed_lookup
        split: option.splits)

lemma keyed_toolStep:
  "list_all (\<lambda>(k, c). tcId c = k) calls \<Longrightarrow>
   list_all (\<lambda>(k, c). tcId c = k) (toolStep rt calls e)"
  by (simp add: toolStep_def Let_def keyed_onFunctionCall keyed_onCustomCall
      keyed_onFunctionOutput keyed_onCustomOutput split: option.splits)

lemma keyed_foldl:
  "list_all (\<lambda>(k, c). tcId c = k) calls \<Longrightarrow>
   list_all (\<lambda>(k, c). tcId c = k) (foldl (toolStep rt) calls es)"
  by (induction es arbitrary: calls) (simp_all add: keyed_toolStep)

lemma keyed_reconcile: "list_all (\<lambda>(k, c). tcId c = k) (reconcile rt es)"
  by (simp add: reconcile_def keyed_foldl)

lemma finalize_fields:
  "tcId (finalize rt c) = tcId c" "tcStatus (finalize rt c) = tcStatus c"
  "tcName (finalize rt c) = tcName c" "tcToolKind (finalize rt c) = tcToolKind c"
  "tcInput (finalize rt c) = tcInput c" "tcStartedAt (finalize rt c) = tcStartedAt c"
  "tcCompletedAt (finalize rt c) = tcCompletedAt c" "tcOutput (finalize rt c) = tcOutput c"
  by (simp_all add: finalize_def split: option.splits)

lemma statusOf_unsorted:
  "list_all (\<lambda>(k, c). tcId c = k) calls \<Longrightarrow> distinct (map fst calls) \<Longrightarrow>
   statusOf cid (map (finalize rt) (map snd calls))
     = (case map_of calls cid of Some c \<Rightarrow> [tcStatus c] | None \<Rightarrow> [])"
proof (induction calls)
  case Nil
  then show ?case by (simp add: statusOf_def)
next
  case (Cons kc calls)
  obtain k c where kc: "kc = (k, c)" by (cases kc)
  from Cons.prems kc have id: "tcId c = k" and rest: "list_all (\<lambda>(k, c). tcId c = k) calls"
    and dist: "distinct (map fst calls)" and fresh: "k \<notin> fst ` set calls"
    by auto
  from Cons.IH [OF rest dist]
  have IH: "statusOf cid (map (finalize rt) (map snd calls))
     = (case map_of calls cid of Some c \<Rightarrow> [tcStatus c] | None \<Rightarrow> [])" .
  show ?case
  proof (cases "k = cid")
    case True
    with fresh have "map_of calls cid = None"
      by (simp add: map_of_eq_None_iff)
    with IH True id kc show ?thesis
      by (simp add: statusOf_def finalize_fields)
  next
    case False
    with IH id kc show ?thesis
      by (simp add: statusOf_def finalize_fields)
  qed
qed

lemma short_mset_eq:
  "mset xs = mset ys \<Longrightarrow> length ys \<le> 1 \<Longrightarrow> xs = ys"
proof (cases ys)
  case Nil
  assume "mset xs = mset ys"
  with Nil show ?thesis by simp
next
  case (Cons y zs)
  assume "mset xs = mset ys" and "length ys \<le> 1"
  with Cons have "zs = []" and "mset xs = {#y#}" by simp_all
  with Cons show ?thesis by (simp add: mset_single_iff_right)
qed

lemma statusOf_sortBy:
  assumes "length (statusOf cid xs) \<le> 1"
  shows "statusOf cid (sortBy cmp xs) = statusOf cid xs"
proof -
  have "mset (statusOf cid (sortBy cmp xs)) = mset (statusOf cid xs)"
    by (simp add: statusOf_def mset_filter mset_sortBy)
  then show ?thesis
    using assms by (rule short_mset_eq)
qed

lemma reconcile_distinct: "distinct (map fst (reconcile rt es))"
  by (simp add: reconcile_keys firstSightings_distinct)

lemma statusOf_output:
  "statusOf cid (fst (buildToolCalls rt es))
     = (case map_of (reconcile rt es) cid of Some c \<Rightarrow> [tcStatus c] | None \<Rightarrow> [])"
proof -
  have u: "statusOf cid (finalized rt es)
     = (case map_of (reconcile rt es) cid of Some c \<Rightarrow> [tcStatus c] | None \<Rightarrow> [])"
    unfolding finalized_def
    by (rule statusOf_unsorted [OF keyed_reconcile reconcile_distinct])
  then have "length (statusOf cid (finalized rt es)) \<le> 1"
    by (simp split: option.splits)
  then have "statusOf cid (sortBy compareCalls (finalized rt es)) = statusOf cid (finalized rt es)"
    by (rule statusOf_sortBy)
  with u show ?thesis
    by (simp add: buildToolCalls_def)
qed

text \<open>
  Claim C2, as the code has it. Once the returned record of an id has the status
  \<^verbatim>\<open>completed\<close>, it keeps it through every later envelope, unless one of them is a
  call-start envelope for the same id whose payload carries a status (not \<^verbatim>\<open>null\<close>) other
  than \<^verbatim>\<open>completed\<close>: a call-start assigns \<^verbatim>\<open>payload.status ?? existing.status\<close>.
\<close>

theorem completed_status_kept:
  assumes "statusOf cid (fst (buildToolCalls rt pre)) = [JStr ''completed'']"
      and "list_all (\<lambda>e. \<not> revertsStatus e cid) post"
  shows "statusOf cid (fst (buildToolCalls rt (pre @ post))) = [JStr ''completed'']"
proof -
  from assms(1) have "completedIn (reconcile rt pre) cid"
    by (simp add: statusOf_output completedIn_def split: option.splits)
  then have "completedIn (foldl (toolStep rt) (reconcile rt pre) post) cid"
    using assms(2) by (rule completed_foldl)
  then have "completedIn (reconcile rt (pre @ post)) cid"
    by (simp add: reconcile_def)
  then show ?thesis
    by (simp add: statusOf_output completedIn_def split: option.splits)
qed


theorem completed_status_kept_witness:
  "statusOf ''c1'' (fst (buildToolCalls exampleRuntime
      [functionCall ''2024-01-01T00:00:00.000Z'' ''c1'',
       functionCallOutput ''2024-01-01T00:00:05.000Z'' ''c1'']))
     = [JStr ''completed'']
   \<and> list_all (\<lambda>e. \<not> revertsStatus e ''c1'')
        [functionCall ''2024-01-01T00:00:09.000Z'' ''c1'',
         functionCallStatus ''2024-01-01T00:00:09.000Z'' ''c2'' ''in_progress'']
   \<and> statusOf ''c1'' (fst (buildToolCalls exampleRuntime
      ([functionCall ''2024-01-01T00:00:00.000Z'' ''c1'',
        functionCallOutput ''2024-01-01T00:00:05.000Z'' ''c1'']
       @ [functionCall ''2024-01-01T00:00:09.000Z'' ''c1'',
          functionCallStatus ''2024-01-01T00:00:09.000Z'' ''c2'' ''in_progress''])))
     = [JStr ''completed'']"
proof -
  have h1: "statusOf ''c1'' (fst (buildToolCalls exampleRuntime
      [functionCall ''2024-01-01T00:00:00.000Z'' ''c1'',
       functionCallOutput ''2024-01-01T00:00:05.000Z'' ''c1'']))
     = [JStr ''completed'']"
    by (simp add: statusOf_def buildToolCalls_def finalized_def reconcile_def toolStep_def
      onFunctionCall_def onFunctionOutput_def onCustomCall_def onCustomOutput_def finalize_def
      sortBy_def compareCalls_def functionCall_def functionCallOutput_def)
  have h2: "list_all (\<lambda>e. \<not> revertsStatus e ''c1'')
        [functionCall ''2024-01-01T00:00:09.000Z'' ''c1'',
         functionCallStatus ''2024-01-01T00:00:09.000Z'' ''c2'' ''in_progress'']"
    by (simp add: revertsStatus_def startIdOf_def functionCall_def functionCallStatus_def)
  from completed_status_kept [OF h1 h2] h1 h2 show ?thesis by simp
qed

text \<open>Claim C2 as stated fails: a call-start envelope that carries the status
  \<^verbatim>\<open>in_progress\<close> and comes after the result sets the status of the completed record back.\<close>

theorem completed_status_reverted_counterexample:
  "statusOf ''c1'' (fst (buildToolCalls exampleRuntime
      [functionCall ''2024-01-01T00:00:00.000Z'' ''c1'',
       functionCallOutput ''2024-01-01T00:00:05.000Z'' ''c1'']))
     = [JStr ''completed'']
   \<and> statusOf ''c1'' (fst (buildToolCalls exampleRuntime
      [functionCall ''2024-01-01T00:00:00.000Z'' ''c1'',
       functionCallOutput ''2024-01-01T00:00:05.000Z'' ''c1'',
       functionCallStatus ''2024-01-01T00:00:09.000Z'' ''c1'' ''in_progress'']))
     = [JStr ''in_progress'']"
  by (simp add: statusOf_def buildToolCalls_def finalized_def reconcile_def toolStep_def
      onFunctionCall_def onFunctionOutput_def onCustomCall_def onCustomOutput_def finalize_def
      sortBy_def compareCalls_def functionCall_def functionCallOutput_def functionCallStatus_def)






section \<open>Properties of the session summary\<close>

lemma slug_proj: "slugify ''/home/u/proj'' = ''home-u-proj''"
  by (simp add: slugify_def toLowerChar_def isSlugChar_def stripDashes_def)

lemma preview_fix_bug: "composePreview (trim ''fix bug'') = ''fix bug''"
  by (simp add: composePreview_def trim_def isSpace_def)

lemma stampPart_fields:
  "accMeta (stampPart e acc) = accMeta acc"
  "accPreview (stampPart e acc) = accPreview acc"
  "accTokens (stampPart e acc) = accTokens acc"
  "accContextWindow (stampPart e acc) = accContextWindow acc"
  "accToolCalls (stampPart e acc) = accToolCalls acc"
  by (simp_all add: stampPart_def split: option.splits)

lemma summaryStep_ids:
  "accToolCalls (summaryStep acc e) =
     (case startIdOf e of Some cid \<Rightarrow> setAdd cid (accToolCalls acc) | None \<Rightarrow> accToolCalls acc)"
  by (auto simp: summaryStep_def startIdOf_def responsePart_def tokenPart_def stampPart_fields
        Let_def split: option.splits)

lemma foldl_summaryStep_ids:
  "accToolCalls (foldl summaryStep acc es) =
     foldl (\<lambda>ids event. case startIdOf event of Some cid \<Rightarrow> setAdd cid ids | None \<Rightarrow> ids)
       (accToolCalls acc) es"
  by (induction es arbitrary: acc) (simp_all add: summaryStep_ids)

lemma summaryLoop_ids: "accToolCalls (summaryLoop es) = firstSightings es"
  by (simp add: summaryLoop_def firstSightings_def foldl_summaryStep_ids initAcc_def)

lemma scenario_example_summary:
  "summarize exampleRuntime ''/root/.codex'' ''abc''
        ''/root/.codex/sessions/rollout-2024-01-01T00-00-00-abc.jsonl''
        (scenario ''2024-01-01T00:00:00.000Z'' ''2024-01-01T00:00:01.000Z''
           ''2024-01-01T00:00:02.000Z'' ''2024-01-01T00:00:07.000Z''
           ''2024-01-01T00:00:08.000Z'' ''2024-01-01T00:00:09.000Z'')
      = Inr (Some
          \<lparr>sumId = ''abc'', sumProjectId = ''home-u-proj'', sumProjectName = ''proj'',
           sumProjectPath = ''/home/u/proj'',
           sumRelativePath = ''sessions/rollout-2024-01-01T00-00-00-abc.jsonl'',
           sumStartedAt = JStr ''2024-01-01T00:00:00.000Z'',
           sumLastActivityAt = JStr ''2024-01-01T00:00:09.000Z'',
           sumPreview = ''fix bug'', sumTotalTokens = JNum 150, sumCachedTokens = JNum 0,
           sumUserTokens = Num 150, sumOutputTokens = JNum 0, sumReasoningTokens = JNum 0,
           sumContextWindow = None, sumToolCallCount = 1\<rparr>)"
  by (simp add: summarize_def summaryLoop_def summaryStep_def stampPart_def responsePart_def
      tokenPart_def initAcc_def makeSummary_def startedOr_def setAdd_def scenario_def
      sessionMeta_def userMessage_def functionCall_def functionCallOutput_def usageAt_def
      usagePayload_def slug_proj preview_fix_bug Let_def
      exampleRuntime_def posixBasename_def posixRelative_def startsWith_def)

text \<open>
  Claim C9. Whenever the summary builder yields a summary, its \<^verbatim>\<open>toolCallCount\<close> is the number
  of records the reconciler returns for the same events (and the count it returns with
  them): both are the number of distinct call ids on \<^verbatim>\<open>function_call\<close> and
  \<^verbatim>\<open>custom_tool_call\<close> envelopes.
\<close>

theorem toolCallCount_agrees:
  assumes "summarize rt root sessionId filePath events = Inr (Some s)"
  shows "sumToolCallCount s = length (fst (buildToolCalls rt events))
       \<and> sumToolCallCount s = snd (buildToolCalls rt events)
       \<and> sumToolCallCount s = card {cid. \<exists>e\<in>set events. startIdOf e = Some cid}"
proof -
  from assms have "sumToolCallCount s = length (accToolCalls (summaryLoop events))"
    by (auto simp: summarize_def makeSummary_def Let_def split: option.splits sum.splits json.splits)
  then have a: "sumToolCallCount s = length (firstSightings events)"
    by (simp add: summaryLoop_ids)
  have "length (finalized rt events) = length (map fst (reconcile rt events))"
    by (simp add: finalized_def)
  then have b: "length (finalized rt events) = length (firstSightings events)"
    by (simp only: reconcile_keys)
  have c: "length (firstSightings events) = card {cid. \<exists>e\<in>set events. startIdOf e = Some cid}"
    using firstSightings_distinct [of events] firstSightings_set [of events]
    by (metis distinct_card)
  from a b c show ?thesis
    by (simp add: buildToolCalls_def length_sortBy)
qed

theorem toolCallCount_agrees_witness:
  "summarize exampleRuntime ''/root/.codex'' ''abc''
        ''/root/.codex/sessions/rollout-2024-01-01T00-00-00-abc.jsonl''
        (scenario ''2024-01-01T00:00:00.000Z'' ''2024-01-01T00:00:01.000Z''
           ''2024-01-01T00:00:02.000Z'' ''2024-01-01T00:00:07.000Z''
           ''2024-01-01T00:00:08.000Z'' ''2024-01-01T00:00:09.000Z'')
      = Inr (Some
          \<lparr>sumId = ''abc'', sumProjectId = ''home-u-proj'', sumProjectName = ''proj'',
           sumProjectPath = ''/home/u/proj'',
           sumRelativePath = ''sessions/rollout-2024-01-01T00-00-00-abc.jsonl'',
           sumStartedAt = JStr ''2024-01-01T00:00:00.000Z'',
           sumLastActivityAt = JStr ''2024-01-01T00:00:09.000Z'',
           sumPreview = ''fix bug'', sumTotalTokens = JNum 150, sumCachedTokens = JNum 0,
           sumUserTokens = Num 150, sumOutputTokens = JNum 0, sumReasoningTokens = JNum 0,
           sumContextWindow = None, sumToolCallCount = 1\<rparr>)
   \<and> length (fst (buildToolCalls exampleRuntime
        (scenario ''2024-01-01T00:00:00.000Z'' ''2024-01-01T00:00:01.000Z''
           ''2024-01-01T00:00:02.000Z'' ''2024-01-01T00:00:07.000Z''
           ''2024-01-01T00:00:08.000Z'' ''2024-01-01T00:00:09.000Z''))) = 1
   \<and> snd (buildToolCalls exampleRuntime
        (scenario ''2024-01-01T00:00:00.000Z'' ''2024-01-01T00:00:01.000Z''
           ''2024-01-01T00:00:02.000Z'' ''2024-01-01T00:00:07.000Z''
           ''2024-01-01T00:00:08.000Z'' ''2024-01-01T00:00:09.000Z'')) = 1
   \<and> card {cid. \<exists>e\<in>set (scenario ''2024-01-01T00:00:00.000Z'' ''2024-01-01T00:00:01.000Z''
           ''2024-01-01T00:00:02.000Z'' ''2024-01-01T00:00:07.000Z''
           ''2024-01-01T00:00:08.000Z'' ''2024-01-01T00:00:09.000Z''). startIdOf e = Some cid} = 1"
  using toolCallCount_agrees [OF scenario_example_summary] scenario_example_summary
  by simp

section \<open>The end-to-end scenario\<close>

lemma scenario_summary:
  "\<exists>s. summarize rt root sid fp (scenario t0 t1 t2 t3 t4 t5) = Inr (Some s)
       \<and> sumProjectId s = ''home-u-proj'' \<and> sumPreview s = ''fix bug''
       \<and> sumToolCallCount s = 1 \<and> sumTotalTokens s = JNum 150"
  by (simp add: summarize_def summaryLoop_def summaryStep_def responsePart_def tokenPart_def
      initAcc_def makeSummary_def setAdd_def scenario_def sessionMeta_def userMessage_def
      functionCall_def functionCallOutput_def usageAt_def usagePayload_def
      slug_proj preview_fix_bug stampPart_fields Let_def)

lemma scenario_calls:
  "t2 \<noteq> [] \<Longrightarrow> t3 \<noteq> [] \<Longrightarrow>
   \<exists>c. buildToolCalls rt (scenario t0 t1 t2 t3 t4 t5) = ([c], 1)
       \<and> tcId c = ''c1'' \<and> tcStatus c = JStr ''completed''
       \<and> tcDurationMs c = Some (numSub (dateMs rt t3) (dateMs rt t2))"
  by (simp add: buildToolCalls_def finalized_def reconcile_def toolStep_def onFunctionCall_def
      onFunctionOutput_def onCustomCall_def onCustomOutput_def finalize_def sortBy_def
      scenario_def sessionMeta_def userMessage_def
      functionCall_def functionCallOutput_def usageAt_def usagePayload_def)

lemma scenario_timeline:
  "dateMs rt t4 \<noteq> NaN \<Longrightarrow> dateMs rt t5 \<noteq> NaN \<Longrightarrow>
   length (buildTokenTimeline rt (scenario t0 t1 t2 t3 t4 t5)) = 2
   \<and> sorted_wrt numLe (map ptTimestampMs (buildTokenTimeline rt (scenario t0 t1 t2 t3 t4 t5)))"
  by (cases "dateMs rt t4"; cases "dateMs rt t5")
     (auto simp add: buildTokenTimeline_def timelinePoints_def timelineStep_def sortBy_def
      comparePoints_def scenario_def sessionMeta_def userMessage_def
      functionCall_def functionCallOutput_def usageAt_def usagePayload_def)

text \<open>
  Claim C6. The log of the scenario: a session-meta envelope with the working directory
  \<^verbatim>\<open>/home/u/proj\<close>, a user message \<^verbatim>\<open>fix bug\<close>, the call \<^verbatim>\<open>c1\<close> and its output, both with a
  non-empty time stamp, and two usage reports with totals 100 and 150 whose time stamps read
  as dates. The summary has the project id \<^verbatim>\<open>home-u-proj\<close>, the preview \<^verbatim>\<open>fix bug\<close>, one tool
  call and 150 total tokens (the last snapshot); the reconciler returns one record,
  completed, with the duration computed from the two time stamps; the timeline has two
  points in ascending order.
\<close>

theorem end_to_end_scenario:
  assumes "t2 \<noteq> []" and "t3 \<noteq> []" and "dateMs rt t4 \<noteq> NaN" and "dateMs rt t5 \<noteq> NaN"
  shows "(\<exists>s. summarize rt root sid fp (scenario t0 t1 t2 t3 t4 t5) = Inr (Some s)
             \<and> sumProjectId s = ''home-u-proj'' \<and> sumPreview s = ''fix bug''
             \<and> sumToolCallCount s = 1 \<and> sumTotalTokens s = JNum 150)
       \<and> (\<exists>c. buildToolCalls rt (scenario t0 t1 t2 t3 t4 t5) = ([c], 1)
             \<and> tcId c = ''c1'' \<and> tcStatus c = JStr ''completed''
             \<and> tcDurationMs c = Some (numSub (dateMs rt t3) (dateMs rt t2)))
       \<and> length (buildTokenTimeline rt (scenario t0 t1 t2 t3 t4 t5)) = 2
       \<and> sorted_wrt numLe (map ptTimestampMs (buildTokenTimeline rt (scenario t0 t1 t2 t3 t4 t5)))"
  using scenario_summary [of rt root sid fp t0 t1 t2 t3 t4 t5]
    scenario_calls [OF assms(1,2), of rt t0 t1 t4 t5]
    scenario_timeline [OF assms(3,4), of t0 t1 t2 t3]
  by blast

theorem end_to_end_scenario_witness:
  "''2024-01-01T00:00:02.000Z'' \<noteq> [] \<and> ''2024-01-01T00:00:07.000Z'' \<noteq> []
   \<and> dateMs exampleRuntime ''2024-01-01T00:00:08.000Z'' \<noteq> NaN
   \<and> dateMs exampleRuntime ''2024-01-01T00:00:09.000Z'' \<noteq> NaN
   \<and> summarize exampleRuntime ''/root/.codex'' ''abc''
        ''/root/.codex/sessions/rollout-2024-01-01T00-00-00-abc.jsonl''
        (scenario ''2024-01-01T00:00:00.000Z'' ''2024-01-01T00:00:01.000Z''
           ''2024-01-01T00:00:02.000Z'' ''2024-01-01T00:00:07.000Z''
           ''2024-01-01T00:00:08.000Z'' ''2024-01-01T00:00:09.000Z'')
      = Inr (Some
          \<lparr>sumId = ''abc'', sumProjectId = ''home-u-proj'', sumProjectName = ''proj'',
           sumProjectPath = ''/home/u/proj'',
           sumRelativePath = ''sessions/rollout-2024-01-01T00-00-00-abc.jsonl'',
           sumStartedAt = JStr ''2024-01-01T00:00:00.000Z'',
           sumLastActivityAt = JStr ''2024-01-01T00:00:09.000Z'',
           sumPreview = ''fix bug'', sumTotalTokens = JNum 150, sumCachedTokens = JNum 0,
           sumUserTokens = Num 150, sumOutputTokens = JNum 0, sumReasoningTokens = JNum 0,
           sumContextWindow = None, sumToolCallCount = 1\<rparr>)
   \<and> (\<exists>c. buildToolCalls exampleRuntime
              (scenario ''2024-01-01T00:00:00.000Z'' ''2024-01-01T00:00:01.000Z''
                 ''2024-01-01T00:00:02.000Z'' ''2024-01-01T00:00:07.000Z''
                 ''2024-01-01T00:00:08.000Z'' ''2024-01-01T00:00:09.000Z'') = ([c], 1)
          \<and> tcId c = ''c1'' \<and> tcStatus c = JStr ''completed''
          \<and> tcDurationMs c = Some (Num 5000))
   \<and> map ptTimestampMs (buildTokenTimeline exampleRuntime
        (scenario ''2024-01-01T00:00:00.000Z'' ''2024-01-01T00:00:01.000Z''
           ''2024-01-01T00:00:02.000Z'' ''2024-01-01T00:00:07.000Z''
           ''2024-01-01T00:00:08.000Z'' ''2024-01-01T00:00:09.000Z''))
      = [Num 1704067208000, Num 1704067209000]"
proof -
  have h3: "dateMs exampleRuntime ''2024-01-01T00:00:08.000Z'' \<noteq> NaN"
    by (simp add: exampleRuntime_def isoDateMs_def isDigit_def daysFromCivil_def)
  have h4: "dateMs exampleRuntime ''2024-01-01T00:00:09.000Z'' \<noteq> NaN"
    by (simp add: exampleRuntime_def isoDateMs_def isDigit_def daysFromCivil_def)
  have d: "numSub (dateMs exampleRuntime ''2024-01-01T00:00:07.000Z'')
                  (dateMs exampleRuntime ''2024-01-01T00:00:02.000Z'') = Num 5000"
    by (simp add: exampleRuntime_def isoDateMs_def isDigit_def daysFromCivil_def)
  have t: "map ptTimestampMs (buildTokenTimeline exampleRuntime
        (scenario ''2024-01-01T00:00:00.000Z'' ''2024-01-01T00:00:01.000Z''
           ''2024-01-01T00:00:02.000Z'' ''2024-01-01T00:00:07.000Z''
           ''2024-01-01T00:00:08.000Z'' ''2024-01-01T00:00:09.000Z''))
      = [Num 1704067208000, Num 1704067209000]"
    by (simp add: buildTokenTimeline_def timelinePoints_def timelineStep_def sortBy_def
      comparePoints_def scenario_def sessionMeta_def userMessage_def
      functionCall_def functionCallOutput_def usageAt_def usagePayload_def
      exampleRuntime_def isoDateMs_def isDigit_def daysFromCivil_def)
  from end_to_end_scenario [OF _ _ h3 h4, of "''2024-01-01T00:00:02.000Z''"
      "''2024-01-01T00:00:07.000Z''" "''/root/.codex''" "''abc''"
      "''/root/.codex/sessions/rollout-2024-01-01T00-00-00-abc.jsonl''"
      "''2024-01-01T00:00:00.000Z''" "''2024-01-01T00:00:01.000Z''"]
  have "\<exists>c. buildToolCalls exampleRuntime
              (scenario ''2024-01-01T00:00:00.000Z'' ''2024-01-01T00:00:01.000Z''
                 ''2024-01-01T00:00:02.000Z'' ''2024-01-01T00:00:07.000Z''
                 ''2024-01-01T00:00:08.000Z'' ''2024-01-01T00:00:09.000Z'') = ([c], 1)
          \<and> tcId c = ''c1'' \<and> tcStatus c = JStr ''completed''
          \<and> tcDurationMs c = Some (Num 5000)"
    by (simp only: d) simp
  with h3 h4 scenario_example_summary t show ?thesis
    by simp
qed

section \<open>Properties of the session detail\<close>






















section \<open>The arrival order of a call and its result\<close>

lemma handlers_idle:
  "getProp p ''type'' \<noteq> Some (JStr ''function_call'') \<Longrightarrow> onFunctionCall p ts calls = calls"
  "getProp p ''type'' \<noteq> Some (JStr ''function_call_output'') \<Longrightarrow>
     onFunctionOutput p ts calls = calls"
  "getProp p ''type'' \<noteq> Some (JStr ''custom_tool_call'') \<Longrightarrow> onCustomCall p ts calls = calls"
  "getProp p ''type'' \<noteq> Some (JStr ''custom_tool_call_output'') \<Longrightarrow>
     onCustomOutput rt p ts calls = calls"
  by (simp_all add: onFunctionCall_def onFunctionOutput_def onCustomCall_def onCustomOutput_def)

lemma toolStep_function_call:
  "getProp e ''type'' = Some (JStr ''response_item'') \<Longrightarrow>
   toRecord (getProp e ''payload'') = Some p \<Longrightarrow>
   getProp p ''type'' = Some (JStr ''function_call'') \<Longrightarrow>
   toolStep rt calls e = onFunctionCall p (stringOf (getProp e ''timestamp'')) calls"
  by (simp add: toolStep_def handlers_idle)

lemma toolStep_custom_call:
  "getProp e ''type'' = Some (JStr ''response_item'') \<Longrightarrow>
   toRecord (getProp e ''payload'') = Some p \<Longrightarrow>
   getProp p ''type'' = Some (JStr ''custom_tool_call'') \<Longrightarrow>
   toolStep rt calls e = onCustomCall p (stringOf (getProp e ''timestamp'')) calls"
  by (simp add: toolStep_def handlers_idle)

lemma toolStep_function_output:
  "getProp e ''type'' = Some (JStr ''response_item'') \<Longrightarrow>
   toRecord (getProp e ''payload'') = Some p \<Longrightarrow>
   getProp p ''type'' = Some (JStr ''function_call_output'') \<Longrightarrow>
   toolStep rt calls e = onFunctionOutput p (stringOf (getProp e ''timestamp'')) calls"
  by (simp add: toolStep_def handlers_idle)

lemma toolStep_custom_output:
  "getProp e ''type'' = Some (JStr ''response_item'') \<Longrightarrow>
   toRecord (getProp e ''payload'') = Some p \<Longrightarrow>
   getProp p ''type'' = Some (JStr ''custom_tool_call_output'') \<Longrightarrow>
   toolStep rt calls e = onCustomOutput rt p (stringOf (getProp e ''timestamp'')) calls"
  by (simp add: toolStep_def handlers_idle)

lemma startIdOf_cases:
  assumes "startIdOf s = Some cid"
  obtains p where "getProp s ''type'' = Some (JStr ''response_item'')"
      and "toRecord (getProp s ''payload'') = Some p"
      and "stringOf (getProp p ''call_id'') = Some cid"
      and "getProp p ''type'' = Some (JStr ''function_call'')
           \<or> getProp p ''type'' = Some (JStr ''custom_tool_call'')"
  using assms by (auto simp: startIdOf_def split: if_splits option.splits)

lemma resultIdOf_cases:
  assumes "resultIdOf r = Some cid"
  obtains p where "getProp r ''type'' = Some (JStr ''response_item'')"
      and "toRecord (getProp r ''payload'') = Some p"
      and "stringOf (getProp p ''call_id'') = Some cid"
      and "getProp p ''type'' = Some (JStr ''function_call_output'')
           \<or> getProp p ''type'' = Some (JStr ''custom_tool_call_output'')"
  using assms by (auto simp: resultIdOf_def split: if_splits option.splits)

lemma result_ignored:
  assumes "resultIdOf r = Some cid" and "map_of calls cid = None"
  shows "toolStep rt calls r = calls"
proof -
  from assms(1) obtain p where p: "getProp r ''type'' = Some (JStr ''response_item'')"
      "toRecord (getProp r ''payload'') = Some p" "stringOf (getProp p ''call_id'') = Some cid"
      "getProp p ''type'' = Some (JStr ''function_call_output'')
       \<or> getProp p ''type'' = Some (JStr ''custom_tool_call_output'')"
    by (rule resultIdOf_cases)
  from p(4) show ?thesis
  proof
    assume t: "getProp p ''type'' = Some (JStr ''function_call_output'')"
    show ?thesis
      by (simp add: toolStep_function_output [OF p(1,2) t] onFunctionOutput_def t p(3) assms(2))
  next
    assume t: "getProp p ''type'' = Some (JStr ''custom_tool_call_output'')"
    show ?thesis
      by (simp add: toolStep_custom_output [OF p(1,2) t] onCustomOutput_def t p(3) assms(2))
  qed
qed

lemma start_from_empty:
  assumes "startIdOf s = Some cid"
  shows "\<exists>a. toolStep rt [] s = [(cid, a)] \<and> tcId a = cid \<and> tcOutput a = None
             \<and> tcCompletedAt a = None"
proof -
  from assms obtain p where p: "getProp s ''type'' = Some (JStr ''response_item'')"
      "toRecord (getProp s ''payload'') = Some p" "stringOf (getProp p ''call_id'') = Some cid"
      "getProp p ''type'' = Some (JStr ''function_call'')
       \<or> getProp p ''type'' = Some (JStr ''custom_tool_call'')"
    by (rule startIdOf_cases)
  from p(4) show ?thesis
  proof
    assume t: "getProp p ''type'' = Some (JStr ''function_call'')"
    show ?thesis
      by (simp add: toolStep_function_call [OF p(1,2) t] onFunctionCall_def t p(3) Let_def
          split: option.split)
  next
    assume t: "getProp p ''type'' = Some (JStr ''custom_tool_call'')"
    show ?thesis
      by (simp add: toolStep_custom_call [OF p(1,2) t] onCustomCall_def t p(3) Let_def
          split: option.split)
  qed
qed

lemma result_on_record:
  assumes "resultIdOf r = Some cid"
  shows "\<exists>b. toolStep rt [(cid, a)] r = [(cid, b)] \<and> tcId b = tcId a \<and> tcName b = tcName a
       \<and> tcToolKind b = tcToolKind a \<and> tcInput b = tcInput a \<and> tcStartedAt b = tcStartedAt a
       \<and> tcStatus b = JStr ''completed''"
proof -
  from assms obtain p where p: "getProp r ''type'' = Some (JStr ''response_item'')"
      "toRecord (getProp r ''payload'') = Some p" "stringOf (getProp p ''call_id'') = Some cid"
      "getProp p ''type'' = Some (JStr ''function_call_output'')
       \<or> getProp p ''type'' = Some (JStr ''custom_tool_call_output'')"
    by (rule resultIdOf_cases)
  from p(4) show ?thesis
  proof
    assume t: "getProp p ''type'' = Some (JStr ''function_call_output'')"
    show ?thesis
      by (simp add: toolStep_function_output [OF p(1,2) t] onFunctionOutput_def t p(3) Let_def
          split: option.split)
  next
    assume t: "getProp p ''type'' = Some (JStr ''custom_tool_call_output'')"
    show ?thesis
      by (simp add: toolStep_custom_output [OF p(1,2) t] onCustomOutput_def t p(3) Let_def
          split: option.split json.split)
  qed
qed

lemma build_single:
  "reconcile rt es = [(cid, a)] \<Longrightarrow> buildToolCalls rt es = ([finalize rt a], 1)"
  by (simp add: buildToolCalls_def finalized_def sortBy_def)

text \<open>
  Claim C1, as the code has it. A call-result envelope for an id without a record is ignored:
  no stub is created. So a result followed by its start gives exactly what the start alone
  gives, a record without output and completion time, while the start followed by the
  result gives one record with the same id, name, kind, input and start time whose status is
  \<^verbatim>\<open>completed\<close>.
\<close>

theorem early_result_is_ignored:
  assumes "startIdOf s = Some cid" and "resultIdOf r = Some cid"
  shows "buildToolCalls rt [r] = ([], 0)
       \<and> buildToolCalls rt [r, s] = buildToolCalls rt [s]
       \<and> (\<exists>a b. buildToolCalls rt [s] = ([a], 1) \<and> buildToolCalls rt [s, r] = ([b], 1)
             \<and> tcId a = cid \<and> tcOutput a = None \<and> tcCompletedAt a = None
             \<and> tcId b = cid \<and> tcName b = tcName a \<and> tcToolKind b = tcToolKind a
             \<and> tcInput b = tcInput a \<and> tcStartedAt b = tcStartedAt a
             \<and> tcStatus b = JStr ''completed'')"
proof -
  have r0: "toolStep rt [] r = []"
    using assms(2) by (rule result_ignored) simp
  then have one: "buildToolCalls rt [r] = ([], 0)"
    by (simp add: buildToolCalls_def finalized_def reconcile_def sortBy_def)
  from r0 have two: "buildToolCalls rt [r, s] = buildToolCalls rt [s]"
    by (simp add: buildToolCalls_def finalized_def reconcile_def)
  from start_from_empty [OF assms(1)] obtain a
    where a: "toolStep rt [] s = [(cid, a)]" "tcId a = cid" "tcOutput a = None"
      "tcCompletedAt a = None"
    by blast
  from result_on_record [OF assms(2)] obtain b
    where b: "toolStep rt [(cid, a)] r = [(cid, b)]" "tcId b = tcId a" "tcName b = tcName a"
      "tcToolKind b = tcToolKind a" "tcInput b = tcInput a" "tcStartedAt b = tcStartedAt a"
      "tcStatus b = JStr ''completed''"
    by blast
  from a(1) have sa: "buildToolCalls rt [s] = ([finalize rt a], 1)"
    by (intro build_single) (simp add: reconcile_def)
  from a(1) b(1) have sb: "buildToolCalls rt [s, r] = ([finalize rt b], 1)"
    by (intro build_single) (simp add: reconcile_def)
  from a b have "tcId (finalize rt a) = cid \<and> tcOutput (finalize rt a) = None
      \<and> tcCompletedAt (finalize rt a) = None \<and> tcId (finalize rt b) = cid
      \<and> tcName (finalize rt b) = tcName (finalize rt a)
      \<and> tcToolKind (finalize rt b) = tcToolKind (finalize rt a)
      \<and> tcInput (finalize rt b) = tcInput (finalize rt a)
      \<and> tcStartedAt (finalize rt b) = tcStartedAt (finalize rt a)
      \<and> tcStatus (finalize rt b) = JStr ''completed''"
    by (simp add: finalize_fields)
  with sa sb one two show ?thesis
    by blast
qed

text \<open>Claim C1 as stated fails: a result alone leaves the ledger empty, and the two orders of
  a start and its result give different records.\<close>

theorem order_dependence_counterexample:
  "buildToolCalls exampleRuntime
      [functionCallOutput ''2024-01-01T00:00:05.000Z'' ''c1''] = ([], 0)
   \<and> map tcStatus (fst (buildToolCalls exampleRuntime
        [functionCall ''2024-01-01T00:00:00.000Z'' ''c1'',
         functionCallOutput ''2024-01-01T00:00:05.000Z'' ''c1'']))
      = [JStr ''completed'']
   \<and> map tcStatus (fst (buildToolCalls exampleRuntime
        [functionCallOutput ''2024-01-01T00:00:05.000Z'' ''c1'',
         functionCall ''2024-01-01T00:00:00.000Z'' ''c1'']))
      = [JStr ''in_progress'']
   \<and> buildToolCalls exampleRuntime
        [functionCall ''2024-01-01T00:00:00.000Z'' ''c1'',
         functionCallOutput ''2024-01-01T00:00:05.000Z'' ''c1'']
      \<noteq> buildToolCalls exampleRuntime
        [functionCallOutput ''2024-01-01T00:00:05.000Z'' ''c1'',
         functionCall ''2024-01-01T00:00:00.000Z'' ''c1'']"
  by (simp add: buildToolCalls_def finalized_def reconcile_def toolStep_def
      onFunctionCall_def onFunctionOutput_def onCustomCall_def onCustomOutput_def finalize_def
      sortBy_def compareCalls_def functionCall_def functionCallOutput_def)

theorem early_result_is_ignored_witness:
  "startIdOf (functionCall ''2024-01-01T00:00:00.000Z'' ''c1'') = Some ''c1''
   \<and> resultIdOf (functionCallOutput ''2024-01-01T00:00:05.000Z'' ''c1'') = Some ''c1''
   \<and> buildToolCalls exampleRuntime
        [functionCallOutput ''2024-01-01T00:00:05.000Z'' ''c1'',
         functionCall ''2024-01-01T00:00:00.000Z'' ''c1'']
      = buildToolCalls exampleRuntime [functionCall ''2024-01-01T00:00:00.000Z'' ''c1'']
   \<and> buildToolCalls exampleRuntime [functionCall ''2024-01-01T00:00:00.000Z'' ''c1'']
      = ([\<lparr>tcId = ''c1'', tcName = JStr ''shell'', tcToolKind = Function,
            tcStatus = JStr ''in_progress'', tcInput = Some ''{}'', tcOutput = None,
            tcMetadata = None, tcStartedAt = Some ''2024-01-01T00:00:00.000Z'',
            tcCompletedAt = None, tcDurationMs = None\<rparr>], 1)"
proof -
  have s: "startIdOf (functionCall ''2024-01-01T00:00:00.000Z'' ''c1'') = Some ''c1''"
    by (simp add: startIdOf_def functionCall_def)
  have r: "resultIdOf (functionCallOutput ''2024-01-01T00:00:05.000Z'' ''c1'') = Some ''c1''"
    by (simp add: resultIdOf_def functionCallOutput_def)
  have v: "buildToolCalls exampleRuntime [functionCall ''2024-01-01T00:00:00.000Z'' ''c1'']
      = ([\<lparr>tcId = ''c1'', tcName = JStr ''shell'', tcToolKind = Function,
            tcStatus = JStr ''in_progress'', tcInput = Some ''{}'', tcOutput = None,
            tcMetadata = None, tcStartedAt = Some ''2024-01-01T00:00:00.000Z'',
            tcCompletedAt = None, tcDurationMs = None\<rparr>], 1)"
    by (simp add: buildToolCalls_def finalized_def reconcile_def toolStep_def
      onFunctionCall_def onFunctionOutput_def onCustomCall_def onCustomOutput_def finalize_def
      sortBy_def functionCall_def)
  from early_result_is_ignored [OF s r, of exampleRuntime] s r v show ?thesis
    by simp
qed

section \<open>Properties of the preview\<close>

lemma collapse_head:
  "collapseSpaces (c # cs) \<noteq> [] \<and> (isSpace (hd (collapseSpaces (c # cs))) = isSpace c)"
  by (simp add: isSpace_def)

lemma collapse_apart: "successively apart (collapseSpaces s)"
proof (induction s rule: collapseSpaces.induct)
  case 1
  show ?case by simp
next
  case (2 c cs)
  show ?case
  proof (cases "isSpace c")
    case True
    let ?r = "dropWhile isSpace cs"
    have eq: "collapseSpaces (c # cs) = CHR '' '' # collapseSpaces ?r"
      using True by simp
    show ?thesis
    proof (cases ?r)
      case Nil
      show ?thesis unfolding eq Nil by simp
    next
      case (Cons d ds)
      then have "\<not> isSpace d"
        using hd_dropWhile [of isSpace cs] by (metis list.distinct(1) list.sel(1))
      with collapse_head [of d ds] obtain x xs
        where x: "collapseSpaces (d # ds) = x # xs" "\<not> isSpace x"
        by (cases "collapseSpaces (d # ds)") auto
      from "2.IH"(1) [OF True] have "successively apart (collapseSpaces ?r)" .
      with x show ?thesis
        unfolding eq Cons by (simp add: apart_def)
    qed
  next
    case False
    then have eq: "collapseSpaces (c # cs) = c # collapseSpaces cs"
      by simp
    from "2.IH"(2) [OF False] have "successively apart (collapseSpaces cs)" .
    with False show ?thesis
      unfolding eq by (cases "collapseSpaces cs") (simp_all add: apart_def)
  qed
qed

lemma collapse_blank:
  "list_all (\<lambda>c. isSpace c \<longrightarrow> c = CHR '' '') (collapseSpaces s)"
  by (induction s rule: collapseSpaces.induct) simp_all

lemma suffix_apart: "successively P (xs @ ys) \<Longrightarrow> successively P ys"
  by (simp add: successively_append_iff)

lemma dropWhile_apart: "successively P xs \<Longrightarrow> successively P (dropWhile Q xs)"
  using suffix_apart [of P "takeWhile Q xs" "dropWhile Q xs"] by simp

lemma rev_apart: "successively apart xs \<Longrightarrow> successively apart (rev xs)"
proof -
  assume a: "successively apart xs"
  have "(\<lambda>x y. apart y x) = apart"
    by (auto simp: apart_def fun_eq_iff)
  with a have "successively (\<lambda>x y. apart y x) xs"
    by (simp only:)
  then show "successively apart (rev xs)"
    by (simp only: successively_rev)
qed

lemma trim_apart: "successively apart xs \<Longrightarrow> successively apart (trim xs)"
  unfolding trim_def by (intro rev_apart dropWhile_apart)

lemma take_apart: "successively P xs \<Longrightarrow> successively P (take n xs)"
  using successively_append_iff [of P "take n xs" "drop n xs"] by simp

lemma trim_subset: "set (trim xs) \<subseteq> set xs"
  by (auto simp: trim_def dest!: set_dropWhileD)

lemma trim_trimmed: "trimmed (trim xs)"
proof (cases "trim xs = []")
  case True
  then show ?thesis by (simp add: trimmed_def)
next
  case ne: False
  let ?d = "dropWhile isSpace xs"
  let ?e = "dropWhile isSpace (rev ?d)"
  from ne have e: "?e \<noteq> []" by (simp add: trim_def)
  then have d: "?d \<noteq> []"
    by (metis dropWhile.simps(1) rev.simps(1))
  have "last (trim xs) = hd ?e"
    using e by (simp only: trim_def last_rev)
  moreover have "\<not> isSpace (hd ?e)"
    using e hd_dropWhile by blast
  moreover have "hd (trim xs) = last ?e"
    using e by (simp only: trim_def hd_rev)
  moreover have "last ?e = last (rev ?d)"
    using e by (metis last_appendR takeWhile_dropWhile_id)
  moreover have "last (rev ?d) = hd ?d"
    using d by (simp only: last_rev)
  moreover have "\<not> isSpace (hd ?d)"
    using d hd_dropWhile by blast
  ultimately show ?thesis by (simp add: trimmed_def)
qed

lemma cleaned_singleSpaced: "singleSpaced (trim (collapseSpaces s))"
  using collapse_blank [of s] trim_subset [of "collapseSpaces s"]
  by (auto simp: singleSpaced_def trim_apart collapse_apart list_all_iff)

lemma composePreview_singleSpaced: "singleSpaced (composePreview s)"
proof (cases "s = []")
  case True
  then show ?thesis
    by (simp add: composePreview_def singleSpaced_def apart_def isSpace_def)
next
  case False
  let ?c = "trim (collapseSpaces s)"
  have c: "singleSpaced ?c" by (rule cleaned_singleSpaced)
  show ?thesis
  proof (cases "length ?c > 180")
    case long: True
    have dot: "\<not> isSpace CHR ''.''" by (simp add: isSpace_def)
    have "successively apart (take 177 ?c)"
      using c by (simp add: singleSpaced_def take_apart)
    then have "successively apart (take 177 ?c @ ''...'')"
      using dot by (simp add: successively_append_iff apart_def)
    moreover have "list_all (\<lambda>c. isSpace c \<longrightarrow> c = CHR '' '') (take 177 ?c @ ''...'')"
      using c dot by (auto simp: singleSpaced_def list_all_iff dest: in_set_takeD)
    ultimately show ?thesis
      using False long by (simp add: composePreview_def singleSpaced_def Let_def)
  next
    case short: False
    with False c show ?thesis
      by (simp add: composePreview_def Let_def)
  qed
qed

lemma composePreview_trimmed: "trimmed (composePreview s)"
proof (cases "s = []")
  case True
  then show ?thesis
    by (simp add: composePreview_def trimmed_def isSpace_def)
next
  case False
  let ?c = "trim (collapseSpaces s)"
  have c: "trimmed ?c" by (rule trim_trimmed)
  show ?thesis
  proof (cases "length ?c > 180")
    case long: True
    then have "?c \<noteq> []" by auto
    with c have "\<not> isSpace (hd ?c)" by (simp add: trimmed_def)
    moreover have "hd (take 177 ?c @ ''...'') = hd ?c"
      using long by (cases ?c) simp_all
    moreover have "\<not> isSpace CHR ''.''" by (simp add: isSpace_def)
    ultimately show ?thesis
      using False long by (simp add: composePreview_def trimmed_def Let_def)
  next
    case short: False
    with False c show ?thesis
      by (simp add: composePreview_def Let_def)
  qed
qed

lemma composePreview_length: "length (composePreview s) \<le> 180"
  by (simp add: composePreview_def Let_def)


lemma segments_text:
  "extractText (Some (JArr (map (\<lambda>s. JObj [(''type'', JStr ''input_text''), (''text'', JStr s)])
                              segments)))
     = trim (joinWith [newline] (filter (\<lambda>s. s \<noteq> []) segments))"
  by (simp add: o_def)

lemma segments_preview:
  "\<exists>s. summarize rt root sid fp [sessionMeta t0 cwd, userMessage t1 segments] = Inr (Some s)
       \<and> sumPreview s =
           (if composePreview (trim (joinWith [newline] (filter (\<lambda>s. s \<noteq> []) segments))) \<noteq> []
            then composePreview (trim (joinWith [newline] (filter (\<lambda>s. s \<noteq> []) segments)))
            else ''(no prompt logged)'')"
  by (simp add: summarize_def summaryLoop_def summaryStep_def responsePart_def tokenPart_def
      initAcc_def makeSummary_def sessionMeta_def userMessage_def stampPart_fields
      segments_text Let_def del: extractText.simps)

lemma hello_world:
  "composePreview (trim (joinWith [newline] (filter (\<lambda>s. s \<noteq> []) [''  Hello'', ''world  ''])))
     = ''Hello world''"
  by (simp add: composePreview_def trim_def isSpace_def newline_def)

text \<open>
  Claim C8. For a user message whose content holds the text segments \<^verbatim>\<open>"  Hello"\<close> and
  \<^verbatim>\<open>"world  "\<close> the preview of the summary is \<^verbatim>\<open>Hello world\<close>. In general the preview is
  composed from the non-empty texts of all segments, joined and trimmed; a composed preview
  has its white space collapsed to single spaces, is trimmed, has at most 180 characters,
  and when the cleaned text has more it is its first 177 characters followed by \<^verbatim>\<open>...\<close>.
\<close>

theorem preview_derivation:
  "(\<exists>s. summarize rt root sid fp [sessionMeta t0 cwd, userMessage t1 [''  Hello'', ''world  '']]
          = Inr (Some s)
        \<and> sumPreview s = ''Hello world'')
   \<and> (\<exists>s. summarize rt root sid fp [sessionMeta t0 cwd, userMessage t1 segments] = Inr (Some s)
        \<and> sumPreview s =
            (if composePreview (trim (joinWith [newline] (filter (\<lambda>s. s \<noteq> []) segments))) \<noteq> []
             then composePreview (trim (joinWith [newline] (filter (\<lambda>s. s \<noteq> []) segments)))
             else ''(no prompt logged)''))
   \<and> singleSpaced (composePreview prompt) \<and> trimmed (composePreview prompt)
   \<and> length (composePreview prompt) \<le> 180
   \<and> (180 < length (trim (collapseSpaces prompt))
        \<longrightarrow> composePreview prompt = take 177 (trim (collapseSpaces prompt)) @ ''...'')"
proof -
  have a: "\<exists>s. summarize rt root sid fp [sessionMeta t0 cwd, userMessage t1 [''  Hello'', ''world  '']]
          = Inr (Some s) \<and> sumPreview s = ''Hello world''"
    using segments_preview [of rt root sid fp t0 cwd t1 "[''  Hello'', ''world  '']"]
    by (simp only: hello_world) simp
  have d: "180 < length (trim (collapseSpaces prompt))
        \<longrightarrow> composePreview prompt = take 177 (trim (collapseSpaces prompt)) @ ''...''"
    by (auto simp: composePreview_def Let_def trim_def)
  from a segments_preview [of rt root sid fp t0 cwd t1 segments]
    composePreview_singleSpaced [of prompt] composePreview_trimmed [of prompt]
    composePreview_length [of prompt] d
  show ?thesis by blast
qed

lemma long_cleaned: "trim (collapseSpaces longPrompt) = longPrompt"
  by (simp add: longPrompt_def trim_def isSpace_def)

theorem preview_derivation_witness:
  "180 < length (trim (collapseSpaces longPrompt))
   \<and> composePreview longPrompt = ''please refactor the parser so that every token carries its source position and then update the tests that compare token streams and also remember to document the new field in th...''
   \<and> singleSpaced (composePreview longPrompt) \<and> trimmed (composePreview longPrompt)
   \<and> length (composePreview longPrompt) = 180"
proof -
  have l: "180 < length (trim (collapseSpaces longPrompt))"
    by (simp add: long_cleaned) (simp add: longPrompt_def)
  have t: "take 177 (trim (collapseSpaces longPrompt)) @ ''...'' = ''please refactor the parser so that every token carries its source position and then update the tests that compare token streams and also remember to document the new field in th...''"
    by (simp add: long_cleaned) (simp add: longPrompt_def)
  note p = preview_derivation [of exampleRuntime "[]" "[]" "[]" "[]" "[]" "[]" "[]" longPrompt]
  from p have q: "singleSpaced (composePreview longPrompt)" "trimmed (composePreview longPrompt)"
    by blast+
  from p l have "composePreview longPrompt = take 177 (trim (collapseSpaces longPrompt)) @ ''...''"
    by blast
  with t have e: "composePreview longPrompt = ''please refactor the parser so that every token carries its source position and then update the tests that compare token streams and also remember to document the new field in th...''"
    by (simp only:)
  have "length ''please refactor the parser so that every token carries its source position and then update the tests that compare token streams and also remember to document the new field in th...'' = 180"
    by simp
  with e have n: "length (composePreview longPrompt) = 180"
    by (simp only:)
  from l e q n show ?thesis by blast
qed

end
